theory Spec2Isabelle
  imports Complex_Main "HOL-Library.List_Lexorder" "HOL-Library.Multiset"
    "HOL-Library.Code_Target_Nat"
begin

section \<open>Python strings and errors\<close>

text \<open>
  A Python \<open>str\<close> is a sequence of Unicode code points: \<open>len\<close> counts code points and
  comparison is lexicographic on them. The field names of the scraper are Hebrew, so a
  string is modelled as a list of code points. \<open>asc\<close> embeds an ASCII literal.
\<close>

type_synonym pystr = "nat list"

text \<open>
  The exceptions that the modelled code can raise: \<open>int\<close> of a malformed string,
  \<open>tag[key]\<close> on a missing attribute, an index out of range, a name that is not defined
  and a call of a value that is not callable.
\<close>

datatype py_error = ValueError | KeyError | IndexError | NameError | TypeError

definition asc :: "string \<Rightarrow> pystr" where
  "asc s = map of_char s"

text \<open>
  \<open>str.lower\<close>, \<open>str.isspace\<close> and \<open>str.strip\<close>. \<open>lower\<close> maps the letters A to Z; the
  source lower-cases colour strings and compares font names with ASCII keywords, and the
  case mapping of other scripts is not modelled. \<open>isspace\<close> lists the code points that
  Python counts as whitespace.
\<close>

definition lower_char :: "nat \<Rightarrow> nat" where
  "lower_char c = (if 65 \<le> c \<and> c \<le> 90 then c + 32 else c)"

definition lower :: "pystr \<Rightarrow> pystr" where
  "lower s = map lower_char s"

definition isspace :: "nat \<Rightarrow> bool" where
  "isspace c = ((9 \<le> c \<and> c \<le> 13) \<or> (28 \<le> c \<and> c \<le> 32) \<or> c = 133 \<or> c = 160
      \<or> c = 5760 \<or> (8192 \<le> c \<and> c \<le> 8202) \<or> c = 8232 \<or> c = 8233 \<or> c = 8239
      \<or> c = 8287 \<or> c = 12288)"

definition strip :: "pystr \<Rightarrow> pystr" where
  "strip s = rev (dropWhile isspace (rev (dropWhile isspace s)))"

definition startswith :: "pystr \<Rightarrow> pystr \<Rightarrow> bool" where
  "startswith s p = (take (length p) s = p)"

fun contains :: "pystr \<Rightarrow> pystr \<Rightarrow> bool" where
  "contains x [] = (x = [])"
| "contains x (c # cs) = (startswith (c # cs) x \<or> contains x cs)"

text \<open>
  \<open>s.replace(old, new)\<close> replaces every occurrence of \<open>old\<close>, left to right and without
  overlap. \<open>s.split(sep)\<close> is modelled for a separator that is not empty (the source passes
  literals only); its result always has at least one piece.
\<close>

function replace_ne :: "pystr \<Rightarrow> pystr \<Rightarrow> pystr \<Rightarrow> pystr" where
  "replace_ne old new [] = []"
| "replace_ne old new (c # cs) =
     (if old \<noteq> [] \<and> startswith (c # cs) old
      then new @ replace_ne old new (drop (length old) (c # cs))
      else c # replace_ne old new cs)"
  by pat_completeness auto
termination
  by (relation "measure (\<lambda>(old, new, s). length s)") (auto simp: neq_Nil_conv)

definition replace :: "pystr \<Rightarrow> pystr \<Rightarrow> pystr \<Rightarrow> pystr" where
  "replace s old new =
     (if old = [] then new @ concat (map (\<lambda>c. c # new) s) else replace_ne old new s)"

function split_acc :: "pystr \<Rightarrow> pystr \<Rightarrow> pystr \<Rightarrow> pystr list" where
  "split_acc sep cur [] = [rev cur]"
| "split_acc sep cur (c # cs) =
     (if sep \<noteq> [] \<and> startswith (c # cs) sep
      then rev cur # split_acc sep [] (drop (length sep) (c # cs))
      else split_acc sep (c # cur) cs)"
  by pat_completeness auto
termination
  by (relation "measure (\<lambda>(sep, cur, s). length s)") (auto simp: neq_Nil_conv)

definition split :: "pystr \<Rightarrow> pystr \<Rightarrow> pystr list" where
  "split s sep = split_acc sep [] s"

fun join :: "pystr \<Rightarrow> pystr list \<Rightarrow> pystr" where
  "join sep [] = []"
| "join sep [x] = x"
| "join sep (x # y # ys) = x @ sep @ join sep (y # ys)"

section \<open>Regular expressions\<close>

text \<open>
  The patterns of the source are written as terms of \<open>rx\<close>: a character class, the empty
  pattern, sequence, alternative, greedy repetition, a capturing group, \<open>^\<close> and \<open>$\<close>.
  A matching state holds the groups captured so far and the rest of the subject.
  \<open>rmatch n r st\<close> lists the states that a match of \<open>r\<close> from \<open>st\<close> can end in, in the order
  in which a backtracking matcher tries them (the first alternative first, the longest
  repetition first), so its first element is the match that \<open>re\<close> reports. \<open>n\<close> is the
  length of the whole subject, which \<open>^\<close> needs. A repetition stops at an iteration that
  consumes nothing. A group inside a repetition does not occur in the source.
\<close>

datatype rx =
    Cls "nat \<Rightarrow> bool"
  | Eps
  | Seq rx rx
  | Alt rx rx
  | Star rx
  | Grp rx
  | Bol
  | Eol

type_synonym mstate = "pystr list \<times> pystr"

fun rmatch :: "nat \<Rightarrow> rx \<Rightarrow> mstate \<Rightarrow> mstate list" where
  "rmatch n (Cls p) st =
     (case snd st of [] \<Rightarrow> [] | c # cs \<Rightarrow> if p c then [(fst st, cs)] else [])"
| "rmatch n Eps st = [st]"
| "rmatch n (Seq a b) st = concat (map (rmatch n b) (rmatch n a st))"
| "rmatch n (Alt a b) st = rmatch n a st @ rmatch n b st"
| "rmatch n (Star a) st =
     concat (map (\<lambda>st'. if length (snd st') < length (snd st) then rmatch n (Star a) st' else [])
               (rmatch n a st)) @ [st]"
| "rmatch n (Grp a) st =
     map (\<lambda>st'. (fst st' @ [take (length (snd st) - length (snd st')) (snd st)], snd st'))
       (rmatch n a st)"
| "rmatch n Bol st = (if length (snd st) = n then [st] else [])"
| "rmatch n Eol st = (if snd st = [] \<or> snd st = [10] then [st] else [])"

text \<open>
  Derived forms: \<open>r+\<close>, \<open>r?\<close>, \<open>r{m}\<close>, \<open>r{m,n}\<close>, \<open>r{m,}\<close>, literals, and literals under
  \<open>re.I\<close> (ASCII letters compare caselessly). \<open>\s\<close> is \<open>isspace\<close>. \<open>\d\<close> and \<open>\w\<close> are the
  Unicode classes of Python's \<open>re\<close> for \<open>str\<close> patterns: the decimal digits, and the
  alphanumeric characters with the underscore. \<open>digit_ranges\<close> lists the ranges of decimal
  digits and \<open>word_ranges\<close> the ranges of word characters from code point 128 on, both of
  Unicode 14.0 (Python 3.11); every range of digits runs from a digit zero, so the value that
  \<open>int\<close> gives a digit is its offset in the range modulo ten.
\<close>

fun seqs :: "rx list \<Rightarrow> rx" where
  "seqs [] = Eps"
| "seqs [r] = r"
| "seqs (r # rs) = Seq r (seqs rs)"

fun alts :: "rx list \<Rightarrow> rx" where
  "alts [] = Cls (\<lambda>c. False)"
| "alts [r] = r"
| "alts (r # rs) = Alt r (alts rs)"

definition chr :: "char \<Rightarrow> rx" where
  "chr c = Cls (\<lambda>x. x = of_char c)"

definition lit_s :: "pystr \<Rightarrow> rx" where
  "lit_s s = seqs (map (\<lambda>c. Cls (\<lambda>x. x = c)) s)"

definition lit :: "string \<Rightarrow> rx" where
  "lit s = lit_s (asc s)"

definition lit_i :: "string \<Rightarrow> rx" where
  "lit_i s = seqs (map (\<lambda>c. Cls (\<lambda>x. lower_char x = lower_char c)) (asc s))"

definition many1 :: "rx \<Rightarrow> rx" where
  "many1 r = Seq r (Star r)"

definition opt :: "rx \<Rightarrow> rx" where
  "opt r = Alt r Eps"

primrec rep :: "nat \<Rightarrow> rx \<Rightarrow> rx" where
  "rep 0 r = Eps"
| "rep (Suc n) r = Seq r (rep n r)"

primrec rep_upto :: "nat \<Rightarrow> rx \<Rightarrow> rx" where
  "rep_upto 0 r = Eps"
| "rep_upto (Suc n) r = Alt (Seq r (rep_upto n r)) Eps"

definition rep_range :: "nat \<Rightarrow> nat \<Rightarrow> rx \<Rightarrow> rx" where
  "rep_range m n r = Seq (rep m r) (rep_upto (n - m) r)"

definition rep_min :: "nat \<Rightarrow> rx \<Rightarrow> rx" where
  "rep_min m r = Seq (rep m r) (Star r)"

definition in_ranges :: "nat \<Rightarrow> (nat \<times> nat) list \<Rightarrow> bool" where
  "in_ranges c ranges = list_ex (\<lambda>r. fst r \<le> c \<and> c \<le> snd r) ranges"

definition digit_ranges :: "(nat \<times> nat) list" where
  "digit_ranges =
     [(48, 57), (1632, 1641), (1776, 1785), (1984, 1993), (2406, 2415), (2534, 2543),
      (2662, 2671), (2790, 2799), (2918, 2927), (3046, 3055), (3174, 3183), (3302, 3311),
      (3430, 3439), (3558, 3567), (3664, 3673), (3792, 3801), (3872, 3881), (4160, 4169),
      (4240, 4249), (6112, 6121), (6160, 6169), (6470, 6479), (6608, 6617), (6784, 6793),
      (6800, 6809), (6992, 7001), (7088, 7097), (7232, 7241), (7248, 7257), (42528, 42537),
      (43216, 43225), (43264, 43273), (43472, 43481), (43504, 43513), (43600, 43609),
      (44016, 44025), (65296, 65305), (66720, 66729), (68912, 68921), (69734, 69743),
      (69872, 69881), (69942, 69951), (70096, 70105), (70384, 70393), (70736, 70745),
      (70864, 70873), (71248, 71257), (71360, 71369), (71472, 71481), (71904, 71913),
      (72016, 72025), (72784, 72793), (73040, 73049), (73120, 73129), (92768, 92777),
      (92864, 92873), (93008, 93017), (120782, 120831), (123200, 123209), (123632, 123641),
      (125264, 125273), (130032, 130041)]"

definition word_ranges :: "(nat \<times> nat) list" where
  "word_ranges =
     [(170, 170), (178, 179), (181, 181), (185, 186), (188, 190), (192, 214), (216, 246),
      (248, 705), (710, 721), (736, 740), (748, 748), (750, 750), (880, 884), (886, 887),
      (890, 893), (895, 895), (902, 902), (904, 906), (908, 908), (910, 929), (931, 1013),
      (1015, 1153), (1162, 1327), (1329, 1366), (1369, 1369), (1376, 1416), (1488, 1514),
      (1519, 1522), (1568, 1610), (1632, 1641), (1646, 1647), (1649, 1747), (1749, 1749),
      (1765, 1766), (1774, 1788), (1791, 1791), (1808, 1808), (1810, 1839), (1869, 1957),
      (1969, 1969), (1984, 2026), (2036, 2037), (2042, 2042), (2048, 2069), (2074, 2074),
      (2084, 2084), (2088, 2088), (2112, 2136), (2144, 2154), (2160, 2183), (2185, 2190),
      (2208, 2249), (2308, 2361), (2365, 2365), (2384, 2384), (2392, 2401), (2406, 2415),
      (2417, 2432), (2437, 2444), (2447, 2448), (2451, 2472), (2474, 2480), (2482, 2482),
      (2486, 2489), (2493, 2493), (2510, 2510), (2524, 2525), (2527, 2529), (2534, 2545),
      (2548, 2553), (2556, 2556), (2565, 2570), (2575, 2576), (2579, 2600), (2602, 2608),
      (2610, 2611), (2613, 2614), (2616, 2617), (2649, 2652), (2654, 2654), (2662, 2671),
      (2674, 2676), (2693, 2701), (2703, 2705), (2707, 2728), (2730, 2736), (2738, 2739),
      (2741, 2745), (2749, 2749), (2768, 2768), (2784, 2785), (2790, 2799), (2809, 2809),
      (2821, 2828), (2831, 2832), (2835, 2856), (2858, 2864), (2866, 2867), (2869, 2873),
      (2877, 2877), (2908, 2909), (2911, 2913), (2918, 2927), (2929, 2935), (2947, 2947),
      (2949, 2954), (2958, 2960), (2962, 2965), (2969, 2970), (2972, 2972), (2974, 2975),
      (2979, 2980), (2984, 2986), (2990, 3001), (3024, 3024), (3046, 3058), (3077, 3084),
      (3086, 3088), (3090, 3112), (3114, 3129), (3133, 3133), (3160, 3162), (3165, 3165),
      (3168, 3169), (3174, 3183), (3192, 3198), (3200, 3200), (3205, 3212), (3214, 3216),
      (3218, 3240), (3242, 3251), (3253, 3257), (3261, 3261), (3293, 3294), (3296, 3297),
      (3302, 3311), (3313, 3314), (3332, 3340), (3342, 3344), (3346, 3386), (3389, 3389),
      (3406, 3406), (3412, 3414), (3416, 3425), (3430, 3448), (3450, 3455), (3461, 3478),
      (3482, 3505), (3507, 3515), (3517, 3517), (3520, 3526), (3558, 3567), (3585, 3632),
      (3634, 3635), (3648, 3654), (3664, 3673), (3713, 3714), (3716, 3716), (3718, 3722),
      (3724, 3747), (3749, 3749), (3751, 3760), (3762, 3763), (3773, 3773), (3776, 3780),
      (3782, 3782), (3792, 3801), (3804, 3807), (3840, 3840), (3872, 3891), (3904, 3911),
      (3913, 3948), (3976, 3980), (4096, 4138), (4159, 4169), (4176, 4181), (4186, 4189),
      (4193, 4193), (4197, 4198), (4206, 4208), (4213, 4225), (4238, 4238), (4240, 4249),
      (4256, 4293), (4295, 4295), (4301, 4301), (4304, 4346), (4348, 4680), (4682, 4685),
      (4688, 4694), (4696, 4696), (4698, 4701), (4704, 4744), (4746, 4749), (4752, 4784),
      (4786, 4789), (4792, 4798), (4800, 4800), (4802, 4805), (4808, 4822), (4824, 4880),
      (4882, 4885), (4888, 4954), (4969, 4988), (4992, 5007), (5024, 5109), (5112, 5117),
      (5121, 5740), (5743, 5759), (5761, 5786), (5792, 5866), (5870, 5880), (5888, 5905),
      (5919, 5937), (5952, 5969), (5984, 5996), (5998, 6000), (6016, 6067), (6103, 6103),
      (6108, 6108), (6112, 6121), (6128, 6137), (6160, 6169), (6176, 6264), (6272, 6276),
      (6279, 6312), (6314, 6314), (6320, 6389), (6400, 6430), (6470, 6509), (6512, 6516),
      (6528, 6571), (6576, 6601), (6608, 6618), (6656, 6678), (6688, 6740), (6784, 6793),
      (6800, 6809), (6823, 6823), (6917, 6963), (6981, 6988), (6992, 7001), (7043, 7072),
      (7086, 7141), (7168, 7203), (7232, 7241), (7245, 7293), (7296, 7304), (7312, 7354),
      (7357, 7359), (7401, 7404), (7406, 7411), (7413, 7414), (7418, 7418), (7424, 7615),
      (7680, 7957), (7960, 7965), (7968, 8005), (8008, 8013), (8016, 8023), (8025, 8025),
      (8027, 8027), (8029, 8029), (8031, 8061), (8064, 8116), (8118, 8124), (8126, 8126),
      (8130, 8132), (8134, 8140), (8144, 8147), (8150, 8155), (8160, 8172), (8178, 8180),
      (8182, 8188), (8304, 8305), (8308, 8313), (8319, 8329), (8336, 8348), (8450, 8450),
      (8455, 8455), (8458, 8467), (8469, 8469), (8473, 8477), (8484, 8484), (8486, 8486),
      (8488, 8488), (8490, 8493), (8495, 8505), (8508, 8511), (8517, 8521), (8526, 8526),
      (8528, 8585), (9312, 9371), (9450, 9471), (10102, 10131), (11264, 11492), (11499, 11502),
      (11506, 11507), (11517, 11517), (11520, 11557), (11559, 11559), (11565, 11565),
      (11568, 11623), (11631, 11631), (11648, 11670), (11680, 11686), (11688, 11694),
      (11696, 11702), (11704, 11710), (11712, 11718), (11720, 11726), (11728, 11734),
      (11736, 11742), (11823, 11823), (12293, 12295), (12321, 12329), (12337, 12341),
      (12344, 12348), (12353, 12438), (12445, 12447), (12449, 12538), (12540, 12543),
      (12549, 12591), (12593, 12686), (12690, 12693), (12704, 12735), (12784, 12799),
      (12832, 12841), (12872, 12879), (12881, 12895), (12928, 12937), (12977, 12991),
      (13312, 19903), (19968, 42124), (42192, 42237), (42240, 42508), (42512, 42539),
      (42560, 42606), (42623, 42653), (42656, 42735), (42775, 42783), (42786, 42888),
      (42891, 42954), (42960, 42961), (42963, 42963), (42965, 42969), (42994, 43009),
      (43011, 43013), (43015, 43018), (43020, 43042), (43056, 43061), (43072, 43123),
      (43138, 43187), (43216, 43225), (43250, 43255), (43259, 43259), (43261, 43262),
      (43264, 43301), (43312, 43334), (43360, 43388), (43396, 43442), (43471, 43481),
      (43488, 43492), (43494, 43518), (43520, 43560), (43584, 43586), (43588, 43595),
      (43600, 43609), (43616, 43638), (43642, 43642), (43646, 43695), (43697, 43697),
      (43701, 43702), (43705, 43709), (43712, 43712), (43714, 43714), (43739, 43741),
      (43744, 43754), (43762, 43764), (43777, 43782), (43785, 43790), (43793, 43798),
      (43808, 43814), (43816, 43822), (43824, 43866), (43868, 43881), (43888, 44002),
      (44016, 44025), (44032, 55203), (55216, 55238), (55243, 55291), (63744, 64109),
      (64112, 64217), (64256, 64262), (64275, 64279), (64285, 64285), (64287, 64296),
      (64298, 64310), (64312, 64316), (64318, 64318), (64320, 64321), (64323, 64324),
      (64326, 64433), (64467, 64829), (64848, 64911), (64914, 64967), (65008, 65019),
      (65136, 65140), (65142, 65276), (65296, 65305), (65313, 65338), (65345, 65370),
      (65382, 65470), (65474, 65479), (65482, 65487), (65490, 65495), (65498, 65500),
      (65536, 65547), (65549, 65574), (65576, 65594), (65596, 65597), (65599, 65613),
      (65616, 65629), (65664, 65786), (65799, 65843), (65856, 65912), (65930, 65931),
      (66176, 66204), (66208, 66256), (66273, 66299), (66304, 66339), (66349, 66378),
      (66384, 66421), (66432, 66461), (66464, 66499), (66504, 66511), (66513, 66517),
      (66560, 66717), (66720, 66729), (66736, 66771), (66776, 66811), (66816, 66855),
      (66864, 66915), (66928, 66938), (66940, 66954), (66956, 66962), (66964, 66965),
      (66967, 66977), (66979, 66993), (66995, 67001), (67003, 67004), (67072, 67382),
      (67392, 67413), (67424, 67431), (67456, 67461), (67463, 67504), (67506, 67514),
      (67584, 67589), (67592, 67592), (67594, 67637), (67639, 67640), (67644, 67644),
      (67647, 67669), (67672, 67702), (67705, 67742), (67751, 67759), (67808, 67826),
      (67828, 67829), (67835, 67867), (67872, 67897), (67968, 68023), (68028, 68047),
      (68050, 68096), (68112, 68115), (68117, 68119), (68121, 68149), (68160, 68168),
      (68192, 68222), (68224, 68255), (68288, 68295), (68297, 68324), (68331, 68335),
      (68352, 68405), (68416, 68437), (68440, 68466), (68472, 68497), (68521, 68527),
      (68608, 68680), (68736, 68786), (68800, 68850), (68858, 68899), (68912, 68921),
      (69216, 69246), (69248, 69289), (69296, 69297), (69376, 69415), (69424, 69445),
      (69457, 69460), (69488, 69505), (69552, 69579), (69600, 69622), (69635, 69687),
      (69714, 69743), (69745, 69746), (69749, 69749), (69763, 69807), (69840, 69864),
      (69872, 69881), (69891, 69926), (69942, 69951), (69956, 69956), (69959, 69959),
      (69968, 70002), (70006, 70006), (70019, 70066), (70081, 70084), (70096, 70106),
      (70108, 70108), (70113, 70132), (70144, 70161), (70163, 70187), (70272, 70278),
      (70280, 70280), (70282, 70285), (70287, 70301), (70303, 70312), (70320, 70366),
      (70384, 70393), (70405, 70412), (70415, 70416), (70419, 70440), (70442, 70448),
      (70450, 70451), (70453, 70457), (70461, 70461), (70480, 70480), (70493, 70497),
      (70656, 70708), (70727, 70730), (70736, 70745), (70751, 70753), (70784, 70831),
      (70852, 70853), (70855, 70855), (70864, 70873), (71040, 71086), (71128, 71131),
      (71168, 71215), (71236, 71236), (71248, 71257), (71296, 71338), (71352, 71352),
      (71360, 71369), (71424, 71450), (71472, 71483), (71488, 71494), (71680, 71723),
      (71840, 71922), (71935, 71942), (71945, 71945), (71948, 71955), (71957, 71958),
      (71960, 71983), (71999, 71999), (72001, 72001), (72016, 72025), (72096, 72103),
      (72106, 72144), (72161, 72161), (72163, 72163), (72192, 72192), (72203, 72242),
      (72250, 72250), (72272, 72272), (72284, 72329), (72349, 72349), (72368, 72440),
      (72704, 72712), (72714, 72750), (72768, 72768), (72784, 72812), (72818, 72847),
      (72960, 72966), (72968, 72969), (72971, 73008), (73030, 73030), (73040, 73049),
      (73056, 73061), (73063, 73064), (73066, 73097), (73112, 73112), (73120, 73129),
      (73440, 73458), (73648, 73648), (73664, 73684), (73728, 74649), (74752, 74862),
      (74880, 75075), (77712, 77808), (77824, 78894), (82944, 83526), (92160, 92728),
      (92736, 92766), (92768, 92777), (92784, 92862), (92864, 92873), (92880, 92909),
      (92928, 92975), (92992, 92995), (93008, 93017), (93019, 93025), (93027, 93047),
      (93053, 93071), (93760, 93846), (93952, 94026), (94032, 94032), (94099, 94111),
      (94176, 94177), (94179, 94179), (94208, 100343), (100352, 101589), (101632, 101640),
      (110576, 110579), (110581, 110587), (110589, 110590), (110592, 110882), (110928, 110930),
      (110948, 110951), (110960, 111355), (113664, 113770), (113776, 113788), (113792, 113800),
      (113808, 113817), (119520, 119539), (119648, 119672), (119808, 119892), (119894, 119964),
      (119966, 119967), (119970, 119970), (119973, 119974), (119977, 119980), (119982, 119993),
      (119995, 119995), (119997, 120003), (120005, 120069), (120071, 120074), (120077, 120084),
      (120086, 120092), (120094, 120121), (120123, 120126), (120128, 120132), (120134, 120134),
      (120138, 120144), (120146, 120485), (120488, 120512), (120514, 120538), (120540, 120570),
      (120572, 120596), (120598, 120628), (120630, 120654), (120656, 120686), (120688, 120712),
      (120714, 120744), (120746, 120770), (120772, 120779), (120782, 120831), (122624, 122654),
      (123136, 123180), (123191, 123197), (123200, 123209), (123214, 123214), (123536, 123565),
      (123584, 123627), (123632, 123641), (124896, 124902), (124904, 124907), (124909, 124910),
      (124912, 124926), (124928, 125124), (125127, 125135), (125184, 125251), (125259, 125259),
      (125264, 125273), (126065, 126123), (126125, 126127), (126129, 126132), (126209, 126253),
      (126255, 126269), (126464, 126467), (126469, 126495), (126497, 126498), (126500, 126500),
      (126503, 126503), (126505, 126514), (126516, 126519), (126521, 126521), (126523, 126523),
      (126530, 126530), (126535, 126535), (126537, 126537), (126539, 126539), (126541, 126543),
      (126545, 126546), (126548, 126548), (126551, 126551), (126553, 126553), (126555, 126555),
      (126557, 126557), (126559, 126559), (126561, 126562), (126564, 126564), (126567, 126570),
      (126572, 126578), (126580, 126583), (126585, 126588), (126590, 126590), (126592, 126601),
      (126603, 126619), (126625, 126627), (126629, 126633), (126635, 126651), (127232, 127244),
      (130032, 130041), (131072, 173791), (173824, 177976), (177984, 178205), (178208, 183969),
      (183984, 191456), (194560, 195101), (196608, 201546)]"

definition is_digit :: "nat \<Rightarrow> bool" where
  "is_digit c = (if c < 128 then 48 \<le> c \<and> c \<le> 57 else in_ranges c digit_ranges)"

definition is_word :: "nat \<Rightarrow> bool" where
  "is_word c =
     (if c < 128
      then (48 \<le> c \<and> c \<le> 57) \<or> (65 \<le> c \<and> c \<le> 90) \<or> (97 \<le> c \<and> c \<le> 122) \<or> c = 95
      else in_ranges c word_ranges)"

definition digit_value :: "nat \<Rightarrow> nat" where
  "digit_value c =
     (case List.find (\<lambda>r. fst r \<le> c \<and> c \<le> snd r) digit_ranges of
        Some r \<Rightarrow> (c - fst r) mod 10
      | None \<Rightarrow> 0)"

definition digit :: rx where
  "digit = Cls is_digit"

definition dash_space :: rx where
  "dash_space = Cls (\<lambda>c. c = 45 \<or> c = 32)"

text \<open>
  \<open>re.match\<close> (anchored at the start), \<open>re.search\<close> (the leftmost match, with its groups),
  \<open>re.findall\<close> (the matches from left to right without overlap, each with its groups) and
  \<open>re.sub\<close> with a constant replacement.
\<close>

definition first_match :: "nat \<Rightarrow> rx \<Rightarrow> pystr \<Rightarrow> mstate option" where
  "first_match n r s = (case rmatch n r ([], s) of [] \<Rightarrow> None | st # _ \<Rightarrow> Some st)"

definition re_match :: "rx \<Rightarrow> pystr \<Rightarrow> bool" where
  "re_match r s = (first_match (length s) r s \<noteq> None)"

fun search_from :: "nat \<Rightarrow> rx \<Rightarrow> pystr \<Rightarrow> (pystr \<times> pystr list) option" where
  "search_from n r [] =
     (case first_match n r [] of None \<Rightarrow> None | Some st \<Rightarrow> Some ([], fst st))"
| "search_from n r (c # cs) =
     (case first_match n r (c # cs) of
        None \<Rightarrow> search_from n r cs
      | Some st \<Rightarrow> Some (take (length (c # cs) - length (snd st)) (c # cs), fst st))"

definition re_search :: "rx \<Rightarrow> pystr \<Rightarrow> (pystr \<times> pystr list) option" where
  "re_search r s = search_from (length s) r s"

definition re_found :: "rx \<Rightarrow> pystr \<Rightarrow> bool" where
  "re_found r s = (re_search r s \<noteq> None)"

function findall_from :: "nat \<Rightarrow> rx \<Rightarrow> pystr \<Rightarrow> (pystr \<times> pystr list) list" where
  "findall_from n r s =
     (case first_match n r s of
        None \<Rightarrow> (case s of [] \<Rightarrow> [] | c # cs \<Rightarrow> findall_from n r cs)
      | Some st \<Rightarrow>
          (take (length s - length (snd st)) s, fst st) #
          (if length (snd st) < length s then findall_from n r (snd st)
           else (case s of [] \<Rightarrow> [] | c # cs \<Rightarrow> findall_from n r cs)))"
  by pat_completeness auto
termination
  by (relation "measure (\<lambda>(n, r, s). length s)") auto

definition findall :: "rx \<Rightarrow> pystr \<Rightarrow> pystr list" where
  "findall r s = map fst (findall_from (length s) r s)"

definition findall_groups :: "rx \<Rightarrow> pystr \<Rightarrow> pystr list list" where
  "findall_groups r s = map snd (findall_from (length s) r s)"

definition group1 :: "pystr list \<Rightarrow> pystr" where
  "group1 gs = (case gs of [] \<Rightarrow> [] | g # _ \<Rightarrow> g)"

function sub_from :: "nat \<Rightarrow> rx \<Rightarrow> pystr \<Rightarrow> pystr \<Rightarrow> pystr" where
  "sub_from n r repl s =
     (case first_match n r s of
        None \<Rightarrow> (case s of [] \<Rightarrow> [] | c # cs \<Rightarrow> c # sub_from n r repl cs)
      | Some st \<Rightarrow>
          (if length (snd st) < length s then repl @ sub_from n r repl (snd st)
           else (case s of [] \<Rightarrow> repl | c # cs \<Rightarrow> repl @ c # sub_from n r repl cs)))"
  by pat_completeness auto
termination
  by (relation "measure (\<lambda>(n, r, repl, s). length s)") auto

definition re_sub :: "rx \<Rightarrow> pystr \<Rightarrow> pystr \<Rightarrow> pystr" where
  "re_sub r repl s = sub_from (length s) r repl s"

section \<open>The parsed document\<close>

text \<open>
  The tree that \<open>BeautifulSoup(html, 'html.parser')\<close> builds: an element has a name, its
  attribute dictionary and its children; a text node holds a string and the class that the
  parser gave it (a plain \<open>NavigableString\<close>, or the class of a comment, of CDATA, or of a
  string inside a style, script, template, rt or rp element). The parser itself is a
  library and stays outside the model. \<open>descendants\<close> lists the nodes below a node in
  document order. \<open>get_text\<close> is \<open>.text\<close>: the strings below the node, in document order, whose
  class is one the node is interested in; for every element but the five named ones these
  are the plain and the CDATA strings, so the text of a page leaves out its style sheets and
  scripts. \<open>string_of\<close> is \<open>.string\<close> (the string of a node with a single child, if that has
  one, whatever its class), \<open>get\<close> is \<open>tag.get(key)\<close> and \<open>getitem\<close> is \<open>tag[key]\<close>, which
  raises \<open>KeyError\<close> for a missing attribute.
\<close>

datatype string_class =
  Plain | CData | Comment | Stylesheet | Script | TemplateString | RubyText | RubyParenthesis

datatype node = Element pystr "(pystr \<times> pystr) list" "node list" | Text string_class pystr

fun is_element :: "node \<Rightarrow> bool" where
  "is_element (Element n a cs) = True"
| "is_element (Text k s) = False"

fun tag_name :: "node \<Rightarrow> pystr" where
  "tag_name (Element n a cs) = n"
| "tag_name (Text k s) = []"

fun descendants :: "node \<Rightarrow> node list" where
  "descendants (Text k s) = []"
| "descendants (Element n a cs) = concat (map (\<lambda>c. c # descendants c) cs)"

definition interesting_string_types :: "pystr \<Rightarrow> string_class list" where
  "interesting_string_types name =
     (if name = asc ''style'' then [Stylesheet]
      else if name = asc ''script'' then [Script]
      else if name = asc ''template'' then [TemplateString]
      else if name = asc ''rt'' then [RubyText]
      else if name = asc ''rp'' then [RubyParenthesis]
      else [Plain, CData])"

fun strings_in :: "string_class list \<Rightarrow> node \<Rightarrow> pystr" where
  "strings_in types (Text k s) = (if k \<in> set types then s else [])"
| "strings_in types (Element n a cs) = concat (map (strings_in types) cs)"

fun get_text :: "node \<Rightarrow> pystr" where
  "get_text (Text k s) = strings_in [Plain, CData] (Text k s)"
| "get_text (Element n a cs) = strings_in (interesting_string_types n) (Element n a cs)"

fun string_of :: "node \<Rightarrow> pystr option" where
  "string_of (Text k s) = Some s"
| "string_of (Element n a cs) = (case cs of [c] \<Rightarrow> string_of c | _ \<Rightarrow> None)"

fun get :: "node \<Rightarrow> pystr \<Rightarrow> pystr option" where
  "get (Element n a cs) k = map_of a k"
| "get (Text k s) key = None"

definition getitem :: "node \<Rightarrow> pystr \<Rightarrow> py_error + pystr" where
  "getitem x k = (case get x k of None \<Rightarrow> Inl KeyError | Some v \<Rightarrow> Inr v)"

text \<open>
  The filters of \<open>find_all\<close> and \<open>find\<close>: a list of tag names (empty for any name) and, per
  attribute, a string (equality), a compiled pattern (\<open>search\<close>) or \<open>True\<close> (the attribute
  is present). An element that lacks the attribute never matches. The \<open>class\<close> attribute
  is a list of whitespace-separated tokens: it matches if one token matches or the tokens
  joined by a space match. Two nodes are equal, as \<open>Tag.__eq__\<close> has it, when their names,
  attributes and contents are.
\<close>

fun split_ws_acc :: "pystr \<Rightarrow> pystr \<Rightarrow> pystr list" where
  "split_ws_acc cur [] = (if cur = [] then [] else [rev cur])"
| "split_ws_acc cur (c # cs) =
     (if isspace c then (if cur = [] then split_ws_acc [] cs else rev cur # split_ws_acc [] cs)
      else split_ws_acc (c # cur) cs)"

definition split_ws :: "pystr \<Rightarrow> pystr list" where
  "split_ws s = split_ws_acc [] s"

datatype matcher = MStr pystr | MRe rx | MTrue

fun value_matches :: "matcher \<Rightarrow> pystr \<Rightarrow> bool" where
  "value_matches (MStr s) v = (v = s)"
| "value_matches (MRe r) v = re_found r v"
| "value_matches MTrue v = True"

definition attr_matches :: "node \<Rightarrow> pystr \<times> matcher \<Rightarrow> bool" where
  "attr_matches x km =
     (case get x (fst km) of
        None \<Rightarrow> False
      | Some v \<Rightarrow>
          if fst km = asc ''class''
          then list_ex (value_matches (snd km)) (split_ws v)
               \<or> value_matches (snd km) (join (asc '' '') (split_ws v))
          else value_matches (snd km) v)"

definition tag_matches :: "pystr list \<Rightarrow> (pystr \<times> matcher) list \<Rightarrow> node \<Rightarrow> bool" where
  "tag_matches names attrs x =
     (is_element x \<and> (names = [] \<or> tag_name x \<in> set names) \<and> list_all (attr_matches x) attrs)"

definition find_all :: "node \<Rightarrow> pystr list \<Rightarrow> (pystr \<times> matcher) list \<Rightarrow> node list" where
  "find_all tree names attrs = filter (tag_matches names attrs) (descendants tree)"

definition bs_find :: "node \<Rightarrow> pystr list \<Rightarrow> (pystr \<times> matcher) list \<Rightarrow> node option" where
  "bs_find tree names attrs = List.find (tag_matches names attrs) (descendants tree)"

section \<open>utils.py\<close>

text \<open>
  \<open>is_valid_email\<close>: not empty and matching \<open>^[\w\.-]+@[\w\.-]+\.\w+$\<close>.
  \<open>is_valid_phone\<close>: not empty and, with every run of \<open>[\s\-\(\)\.]\<close> removed, matching
  \<open>^\+?[\d]{7,15}$\<close>.
\<close>

definition word_dot_dash :: "nat \<Rightarrow> bool" where
  "word_dot_dash c = (is_word c \<or> c = 46 \<or> c = 45)"

definition is_valid_email :: "pystr \<Rightarrow> bool" where
  "is_valid_email email =
     (if email = [] then False
      else re_match (seqs [Bol, many1 (Cls word_dot_dash), chr CHR ''@'', many1 (Cls word_dot_dash),
                           chr CHR ''.'', many1 (Cls is_word), Eol]) email)"

definition is_valid_phone :: "pystr \<Rightarrow> bool" where
  "is_valid_phone phone =
     (if phone = [] then False
      else
        let clean_phone =
              re_sub (many1 (Cls (\<lambda>c. isspace c \<or> c = 45 \<or> c = 40 \<or> c = 41 \<or> c = 46))) [] phone
        in re_match (seqs [Bol, opt (chr CHR ''+''), rep_range 7 15 (Cls is_digit), Eol]) clean_phone)"

section \<open>design_elements.py: ranking of the palette\<close>

text \<open>
  \<open>int(s, 16)\<close> on a string of hexadecimal digits; a string with any other character,
  or the empty string, raises \<open>ValueError\<close>. (Python's \<open>int\<close> also accepts a sign,
  surrounding whitespace and underscores; the colour patterns never produce them.)
\<close>

definition hexval :: "nat \<Rightarrow> nat option" where
  "hexval c =
     (if 48 \<le> c \<and> c \<le> 57 then Some (c - 48)
      else if 97 \<le> c \<and> c \<le> 102 then Some (c - 87)
      else if 65 \<le> c \<and> c \<le> 70 then Some (c - 55)
      else None)"

fun int16_acc :: "nat \<Rightarrow> pystr \<Rightarrow> nat option" where
  "int16_acc a [] = Some a"
| "int16_acc a (c # cs) =
     (case hexval c of None \<Rightarrow> None | Some d \<Rightarrow> int16_acc (16 * a + d) cs)"

definition int16 :: "pystr \<Rightarrow> py_error + nat" where
  "int16 s =
     (if s = [] then Inl ValueError
      else case int16_acc 0 s of None \<Rightarrow> Inl ValueError | Some n \<Rightarrow> Inr n)"

text \<open>
  The three channel values of a colour string, lines 114 to 121 of
  \<open>sort_colors_by_distinctiveness\<close>: \<open>#rgb\<close> doubles each digit, anything else is read
  as \<open>#rrggbb\<close> by slicing (a slice never raises, \<open>int\<close> of an empty slice does).
\<close>

definition channels3 ::
  "py_error + nat \<Rightarrow> py_error + nat \<Rightarrow> py_error + nat \<Rightarrow> py_error + nat \<times> nat \<times> nat" where
  "channels3 r g b =
     (case r of Inl e \<Rightarrow> Inl e | Inr r' \<Rightarrow>
      (case g of Inl e \<Rightarrow> Inl e | Inr g' \<Rightarrow>
       (case b of Inl e \<Rightarrow> Inl e | Inr b' \<Rightarrow> Inr (r', g', b'))))"

definition color_rgb :: "pystr \<Rightarrow> py_error + nat \<times> nat \<times> nat" where
  "color_rgb color =
     (if length color = 4
      then channels3 (int16 [color ! 1, color ! 1])
                     (int16 [color ! 2, color ! 2])
                     (int16 [color ! 3, color ! 3])
      else channels3 (int16 (take 2 (drop 1 color)))
                     (int16 (take 2 (drop 3 color)))
                     (int16 (take 2 (drop 5 color))))"

text \<open>
  The conversion to hue, saturation and value is done by the source in floating point
  (\<open>int(..) / 255.0\<close>, then \<open>colorsys.rgb_to_hsv\<close>). The ranking only compares the
  results, so the conversion \<open>hsv\<close> from the three channel values is a parameter, into
  any linearly ordered type. \<open>rgb_to_hsv\<close> is the library function in exact arithmetic,
  and \<open>hsv_exact\<close> the conversion built from it.
\<close>

definition rgb_to_hsv :: "rat \<Rightarrow> rat \<Rightarrow> rat \<Rightarrow> rat \<times> rat \<times> rat" where
  "rgb_to_hsv r g b =
     (let maxc = max r (max g b);
          minc = min r (min g b);
          rangec = maxc - minc;
          v = maxc
      in if minc = maxc then (0, 0, v)
         else
           let s = rangec / maxc;
               rc = (maxc - r) / rangec;
               gc = (maxc - g) / rangec;
               bc = (maxc - b) / rangec;
               h = (if r = maxc then bc - gc
                    else if g = maxc then 2 + rc - bc
                    else 4 + gc - rc);
               h' = h / 6 - of_int \<lfloor>h / 6\<rfloor>
           in (h', s, v))"

definition hsv_exact :: "nat \<times> nat \<times> nat \<Rightarrow> rat \<times> rat \<times> rat" where
  "hsv_exact rgb =
     (case rgb of (r, g, b) \<Rightarrow> rgb_to_hsv (of_nat r / 255) (of_nat g / 255) (of_nat b / 255))"

fun hsv_colors_of ::
  "(nat \<times> nat \<times> nat \<Rightarrow> 'k \<times> 'k \<times> 'k) \<Rightarrow> pystr list \<Rightarrow>
     py_error + (pystr \<times> 'k \<times> 'k \<times> 'k) list" where
  "hsv_colors_of hsv [] = Inr []"
| "hsv_colors_of hsv (color # colors) =
     (case color_rgb color of
        Inl e \<Rightarrow> Inl e
      | Inr rgb \<Rightarrow>
          (case hsv_colors_of hsv colors of
             Inl e \<Rightarrow> Inl e
           | Inr rest \<Rightarrow> Inr ((color, hsv rgb) # rest)))"

text \<open>
  \<open>list.sort(key=..)\<close> and \<open>sorted(.., key=..)\<close> are stable, as \<open>sort_key\<close> is;
  with \<open>reverse=True\<close> the order is descending and elements with equal keys keep their
  original order.
\<close>

definition sorted_reverse :: "('a \<Rightarrow> 'k::linorder) \<Rightarrow> 'a list \<Rightarrow> 'a list" where
  "sorted_reverse key xs = rev (sort_key key (rev xs))"

definition hue_of :: "pystr \<times> 'k \<times> 'k \<times> 'k \<Rightarrow> 'k" where
  "hue_of x = fst (snd x)"

definition sat_of :: "pystr \<times> 'k \<times> 'k \<times> 'k \<Rightarrow> 'k" where
  "sat_of x = fst (snd (snd x))"

definition sort_colors_by_distinctiveness ::
  "(nat \<times> nat \<times> nat \<Rightarrow> 'k::linorder \<times> 'k \<times> 'k) \<Rightarrow> pystr list \<Rightarrow> py_error + pystr list" where
  "sort_colors_by_distinctiveness hsv colors =
     (case hsv_colors_of hsv colors of
        Inl e \<Rightarrow> Inl e
      | Inr hsv_colors \<Rightarrow>
          (case sort_key hue_of hsv_colors of
             [] \<Rightarrow> Inr []
           | first # others \<Rightarrow>
               Inr (fst first #
                    (if length (first # others) > 1
                     then map fst (sorted_reverse sat_of others)
                     else []))))"





section \<open>design_elements.py: colours\<close>

text \<open>
  \<open>extract_colors\<close>. The hexadecimal pattern is \<open>#(?:[0-9a-fA-F]{3}){1,2}\<close>; an
  \<open>rgb(r, g, b)\<close> match is formatted by \<open>'#{:02x}{:02x}{:02x}'\<close>, where \<open>int\<close> raises
  \<open>ValueError\<close> for a string of more than 4300 digits. The style sheets of the style
  elements are parsed by cssutils: \<open>parse_css\<close>, a parameter, gives the declarations
  (property name and value) that the loops of lines 38 to 40 visit, or the exception that
  the parser raises. cssutils iterates a style declaration as property objects, not as
  names, so \<open>rule.style[property_name]\<close> of line 41 raises \<open>TypeError\<close>: the first
  declaration of a style rule ends the \<open>try\<close> before any colour is collected, lines 43 to 51
  are never reached, and the inline styles are not looked at. An exception inside the
  \<open>try\<close> is logged and leaves the colours collected so far. The loop over the stylesheet
  links (lines 67 to 71) changes nothing and has no counterpart here.
\<close>

definition rx_hex :: rx where
  "rx_hex = Seq (lit ''#'') (rep_range 1 2 (rep 3 (Cls (\<lambda>c. hexval c \<noteq> None))))"

definition spaces :: rx where
  "spaces = Star (Cls isspace)"

definition rx_rgb :: rx where
  "rx_rgb =
     seqs [lit ''rgb('', spaces, Grp (many1 digit), spaces, lit '','', spaces, Grp (many1 digit),
           spaces, lit '','', spaces, Grp (many1 digit), spaces, lit '')'']"

definition int10 :: "pystr \<Rightarrow> py_error + nat" where
  "int10 s =
     (if length s > 4300 then Inl ValueError
      else Inr (foldl (\<lambda>a c. 10 * a + digit_value c) 0 s))"

definition hexdigit :: "nat \<Rightarrow> nat" where
  "hexdigit d = (if d < 10 then 48 + d else 87 + d)"

function hexstr :: "nat \<Rightarrow> pystr" where
  "hexstr n = (if n < 16 then [hexdigit n] else hexstr (n div 16) @ [hexdigit (n mod 16)])"
  by pat_completeness auto
termination
  by (relation "measure id") auto

definition hex02 :: "nat \<Rightarrow> pystr" where
  "hex02 n = (if n < 16 then 48 # hexstr n else hexstr n)"

definition rgb_hex :: "pystr list \<Rightarrow> py_error + pystr" where
  "rgb_hex groups =
     (case groups of
        [r, g, b] \<Rightarrow>
          (case int10 r of
             Inl e \<Rightarrow> Inl e
           | Inr red \<Rightarrow>
               (case int10 g of
                  Inl e \<Rightarrow> Inl e
                | Inr green \<Rightarrow>
                    (case int10 b of
                       Inl e \<Rightarrow> Inl e
                     | Inr blue \<Rightarrow> Inr (asc ''#'' @ hex02 red @ hex02 green @ hex02 blue))))
      | _ \<Rightarrow> Inr [])"

fun rgb_loop :: "pystr list list \<Rightarrow> pystr list \<Rightarrow> py_error option \<times> pystr list" where
  "rgb_loop [] colors = (None, colors)"
| "rgb_loop (groups # rgb_colors) colors =
     (case rgb_hex groups of
        Inl e \<Rightarrow> (Some e, colors)
      | Inr hex_color \<Rightarrow> rgb_loop rgb_colors (colors @ [hex_color]))"

fun declarations_loop :: "(pystr \<times> pystr) list \<Rightarrow> py_error option" where
  "declarations_loop [] = None"
| "declarations_loop (property # properties) = Some TypeError"

fun style_tags_loop ::
  "(pystr \<Rightarrow> py_error + (pystr \<times> pystr) list) \<Rightarrow> node list \<Rightarrow> py_error option" where
  "style_tags_loop parse_css [] = None"
| "style_tags_loop parse_css (style_tag # style_tags) =
     (case string_of style_tag of
        None \<Rightarrow> style_tags_loop parse_css style_tags
      | Some style_content \<Rightarrow>
          if style_content = [] then style_tags_loop parse_css style_tags
          else (case parse_css style_content of
                  Inl e \<Rightarrow> Some e
                | Inr declarations \<Rightarrow>
                    (case declarations_loop declarations of
                       Some e \<Rightarrow> Some e
                     | None \<Rightarrow> style_tags_loop parse_css style_tags)))"

fun inline_colors :: "node list \<Rightarrow> pystr list \<Rightarrow> pystr list" where
  "inline_colors [] colors = colors"
| "inline_colors (element # elements) colors =
     (case getitem element (asc ''style'') of
        Inl e \<Rightarrow> colors
      | Inr style_content \<Rightarrow>
          (case rgb_loop (findall_groups rx_rgb style_content)
                  (colors @ findall rx_hex style_content) of
             (Some e, colors') \<Rightarrow> colors'
           | (None, colors') \<Rightarrow> inline_colors elements colors'))"

text \<open>
  The fallback of lines 84 to 91: for each name, the values of the custom properties
  \<open>--name\<close> or \<open>--name-color\<close> in the raw markup, and of each value the first hexadecimal
  colour, lower-cased. The colours are appended as they are.
\<close>

definition common_color_names :: "string list" where
  "common_color_names = [''primary'', ''secondary'', ''accent'', ''main'', ''brand'']"

definition rx_custom_property :: "string \<Rightarrow> rx" where
  "rx_custom_property name =
     seqs [lit ''--'', lit name, opt (lit ''-color''), spaces, lit '':'', spaces,
           Grp (many1 (Cls (\<lambda>c. c \<noteq> 59)))]"

definition prop_color :: "pystr \<Rightarrow> pystr list" where
  "prop_color prop =
     (case re_search rx_hex prop of None \<Rightarrow> [] | Some hex_match \<Rightarrow> [lower (fst hex_match)])"

definition fallback_colors :: "pystr \<Rightarrow> pystr list" where
  "fallback_colors html_content =
     concat (map (\<lambda>name. concat (map (\<lambda>groups. prop_color (group1 groups))
                                     (findall_groups (rx_custom_property name) html_content)))
              common_color_names)"

definition excluded_colors :: "pystr list" where
  "excluded_colors = [asc ''#000'', asc ''#000000'', asc ''#fff'', asc ''#ffffff'', asc ''transparent'']"

text \<open>
  \<open>xs[:m]\<close>, also for a negative \<open>m\<close>. \<open>list(set(colors))\<close> keeps one copy of each colour, in
  the order of the hash table, which differs from run to run: the enumeration \<open>set_list\<close> is
  a parameter, and \<open>enumerates\<close> says what is known of it.
\<close>

definition py_take :: "int \<Rightarrow> 'a list \<Rightarrow> 'a list" where
  "py_take m xs = (if 0 \<le> m then take (nat m) xs else take (nat (int (length xs) + m)) xs)"

definition enumerates :: "(pystr list \<Rightarrow> pystr list) \<Rightarrow> bool" where
  "enumerates set_list = (\<forall>xs. set (set_list xs) = set xs \<and> distinct (set_list xs))"

definition extract_colors_from ::
  "(nat \<times> nat \<times> nat \<Rightarrow> 'k::linorder \<times> 'k \<times> 'k) \<Rightarrow> (pystr list \<Rightarrow> pystr list) \<Rightarrow>
     pystr list \<Rightarrow> pystr \<Rightarrow> int \<Rightarrow> py_error + pystr list" where
  "extract_colors_from hsv set_list colors html_content max_colors =
     (let unique_colors = set_list (map lower colors);
          filtered = filter (\<lambda>c. c \<notin> set excluded_colors) unique_colors;
          filtered_colors = (if length filtered < 2 then filtered @ fallback_colors html_content
                             else filtered)
      in if length filtered_colors > 1
         then (case sort_colors_by_distinctiveness hsv filtered_colors of
                 Inl e \<Rightarrow> Inl e
               | Inr sorted_colors \<Rightarrow> Inr (py_take max_colors sorted_colors))
         else Inr (py_take max_colors filtered_colors))"

definition extract_colors ::
  "(nat \<times> nat \<times> nat \<Rightarrow> 'k::linorder \<times> 'k \<times> 'k) \<Rightarrow> (pystr list \<Rightarrow> pystr list) \<Rightarrow>
     (pystr \<Rightarrow> py_error + (pystr \<times> pystr) list) \<Rightarrow> node \<Rightarrow> pystr \<Rightarrow> int \<Rightarrow>
     py_error + pystr list" where
  "extract_colors hsv set_list parse_css soup html_content max_colors =
     extract_colors_from hsv set_list
       (case style_tags_loop parse_css (find_all soup [asc ''style''] []) of
          Some e \<Rightarrow> []
        | None \<Rightarrow> inline_colors (find_all soup [] [(asc ''style'', MTrue)]) [])
       html_content max_colors"

section \<open>design_elements.py: fonts\<close>

text \<open>
  The body of the \<open>try\<close> of \<open>identify_fonts\<close> appends to \<open>fonts\<close> stage by stage. An
  exception leaves the list as it is at that point and skips the rest of the body, so each
  fallible stage returns the list together with the exception, if any.
\<close>

definition rx_weight :: rx where
  "rx_weight = Seq (lit '':'') (many1 (Cls (\<lambda>c. c \<noteq> 44)))"

definition clean_family :: "pystr \<Rightarrow> pystr" where
  "clean_family family = replace (re_sub rx_weight [] family) (asc ''+'') (asc '' '')"

definition google_families :: "pystr \<Rightarrow> py_error + pystr list" where
  "google_families href =
     (if contains (asc ''family='') href
      then (case split href (asc ''family='') of
              _ # after # _ \<Rightarrow>
                (case split after (asc ''&'') of
                   [] \<Rightarrow> Inl IndexError
                 | family_part # _ \<Rightarrow> Inr (map clean_family (split family_part (asc ''|''))))
            | _ \<Rightarrow> Inl IndexError)
      else Inr [])"

fun google_loop :: "node list \<Rightarrow> pystr list \<Rightarrow> pystr list \<times> py_error option" where
  "google_loop [] fonts = (fonts, None)"
| "google_loop (link # links) fonts =
     (case google_families (case get link (asc ''href'') of None \<Rightarrow> [] | Some h \<Rightarrow> h) of
        Inl e \<Rightarrow> (fonts, Some e)
      | Inr families \<Rightarrow> google_loop links (fonts @ families))"

definition quote_char :: "nat \<Rightarrow> bool" where
  "quote_char c = (c = 39 \<or> c = 34)"

definition rx_font_face :: rx where
  "rx_font_face =
     seqs [lit ''@font-face'', spaces, lit ''{'', many1 (Cls (\<lambda>c. c \<noteq> 125)), lit ''font-family'',
           spaces, lit '':'', spaces, Cls quote_char, Grp (many1 (Cls (\<lambda>c. \<not> quote_char c))),
           Cls quote_char]"

definition rx_font_family :: rx where
  "rx_font_family =
     seqs [lit ''font-family'', spaces, lit '':'', spaces,
           Grp (many1 (Cls (\<lambda>c. c \<noteq> 59 \<and> c \<noteq> 125)))]"

definition rx_font_var :: rx where
  "rx_font_var =
     seqs [lit ''--'', Alt (lit ''font'') (lit ''typography''), lit ''-family'',
           opt (Seq (lit ''-'') (many1 (Cls (\<lambda>c. 97 \<le> c \<and> c \<le> 122)))), spaces, lit '':'', spaces,
           Grp (many1 (Cls (\<lambda>c. c \<noteq> 59 \<and> c \<noteq> 125)))]"

definition rx_quote_ends :: rx where
  "rx_quote_ends = Alt (Seq Bol (Cls quote_char)) (Seq (Cls quote_char) Eol)"

definition family_names :: "pystr \<Rightarrow> pystr list" where
  "family_names families =
     filter (\<lambda>family. family \<noteq> []
                \<and> lower family \<notin> set [asc ''sans-serif'', asc ''serif'', asc ''monospace''])
       (map (\<lambda>family. re_sub rx_quote_ends [] (strip family)) (split families (asc '','')))"

definition declared_families :: "pystr \<Rightarrow> pystr list" where
  "declared_families css =
     concat (map (\<lambda>groups. family_names (group1 groups)) (findall_groups rx_font_family css))"

definition style_tag_fonts :: "node \<Rightarrow> pystr list" where
  "style_tag_fonts soup =
     concat (map (\<lambda>style_tag.
                    case string_of style_tag of
                      None \<Rightarrow> []
                    | Some css \<Rightarrow> if css = [] then [] else declared_families css)
              (find_all soup [asc ''style''] []))"

fun inline_fonts :: "node list \<Rightarrow> pystr list \<Rightarrow> pystr list \<times> py_error option" where
  "inline_fonts [] fonts = (fonts, None)"
| "inline_fonts (element # elements) fonts =
     (case getitem element (asc ''style'') of
        Inl e \<Rightarrow> (fonts, Some e)
      | Inr style_content \<Rightarrow>
          inline_fonts elements
            (if contains (asc ''font-family'') style_content
             then fonts @ declared_families style_content else fonts))"

definition variable_fonts :: "pystr \<Rightarrow> pystr list" where
  "variable_fonts html_content =
     concat (map (\<lambda>groups. family_names (group1 groups)) (findall_groups rx_font_var html_content))"

definition collect_fonts :: "node \<Rightarrow> pystr \<Rightarrow> pystr list" where
  "collect_fonts soup html_content =
     (case google_loop (find_all soup [asc ''link'']
                          [(asc ''href'', MRe (lit ''fonts.googleapis.com''))]) [] of
        (fonts, Some e) \<Rightarrow> fonts
      | (fonts, None) \<Rightarrow>
          (case inline_fonts (find_all soup [] [(asc ''style'', MTrue)])
                  (fonts @ map group1 (findall_groups rx_font_face html_content)
                     @ style_tag_fonts soup) of
             (fonts', Some e) \<Rightarrow> fonts'
           | (fonts', None) \<Rightarrow> fonts' @ variable_fonts html_content))"

definition generic_families :: "pystr list" where
  "generic_families =
     [asc ''sans-serif'', asc ''serif'', asc ''monospace'', asc ''cursive'', asc ''fantasy'', []]"

definition normalize_fonts :: "pystr list \<Rightarrow> pystr list" where
  "normalize_fonts fonts =
     filter (\<lambda>font. font \<noteq> [] \<and> lower font \<notin> set generic_families) (map strip fonts)"

text \<open>
  \<open>sorted(list(set(..)))\<close>: the sorted list of the distinct elements, whatever order the
  set is iterated in.
\<close>

definition identify_fonts :: "node \<Rightarrow> pystr \<Rightarrow> pystr list" where
  "identify_fonts soup html_content =
     sort (remdups (normalize_fonts (collect_fonts soup html_content)))"

section \<open>scraper.py: the field extractor\<close>

text \<open>
  The values that \<open>extract_field\<close> returns: a string, a list of strings, the list of team
  members (each a dictionary from key to string) or the dictionary of social links. A
  dictionary is an association list in insertion order; \<open>dict_set\<close> is \<open>d[k] = v\<close>, which
  overwrites the value of a key that is present and appends a new key at the end. The
  field names are the Hebrew strings of the source, given by their code points: business
  name, phone, email (written with a quotation mark, an apostrophe or a gershayim), address,
  three names for the opening hours, team, doctors, social links, three names for the
  business category, logo and dominant colours; \<open>K_NAME\<close> and \<open>K_ROLE\<close> are the keys of a team
  member.
\<close>

datatype pyvalue =
    VStr pystr
  | VList "pystr list"
  | VTeam "(pystr \<times> pystr) list list"
  | VDict "(pystr \<times> pystr) list"

fun dict_set :: "('k \<times> 'v) list \<Rightarrow> 'k \<Rightarrow> 'v \<Rightarrow> ('k \<times> 'v) list" where
  "dict_set [] k v = [(k, v)]"
| "dict_set (p # ps) k v = (if fst p = k then (k, v) # ps else p # dict_set ps k v)"

definition F_NAME :: pystr where
  "F_NAME = [1513, 1501, 32, 1492, 1506, 1505, 1511]"

definition F_PHONE :: pystr where
  "F_PHONE = [1496, 1500, 1508, 1493, 1503]"

definition F_EMAIL :: pystr where
  "F_EMAIL = [1491, 1493, 1488, 34, 1500]"

definition F_EMAIL_APOSTROPHE :: pystr where
  "F_EMAIL_APOSTROPHE = [1491, 1493, 1488, 39, 1500]"

definition F_EMAIL_GERSHAYIM :: pystr where
  "F_EMAIL_GERSHAYIM = [1491, 1493, 1488, 1524, 1500]"

definition F_ADDRESS :: pystr where
  "F_ADDRESS = [1499, 1514, 1493, 1489, 1514]"

definition F_HOURS_ACTIVITY :: pystr where
  "F_HOURS_ACTIVITY = [1513, 1506, 1493, 1514, 32, 1508, 1506, 1497, 1500, 1493, 1514]"

definition F_HOURS_OPENING :: pystr where
  "F_HOURS_OPENING = [1513, 1506, 1493, 1514, 32, 1508, 1514, 1497, 1495, 1492]"

definition F_HOURS_RECEPTION :: pystr where
  "F_HOURS_RECEPTION = [1513, 1506, 1493, 1514, 32, 1511, 1489, 1500, 1492]"

definition F_TEAM :: pystr where
  "F_TEAM = [1510, 1493, 1493, 1514]"

definition F_DOCTORS :: pystr where
  "F_DOCTORS = [1512, 1493, 1508, 1488, 1497, 1501]"

definition F_SOCIAL :: pystr where
  "F_SOCIAL = [1511, 1497, 1513, 1493, 1512, 1497, 1501, 32, 1500, 1512, 1513, 1514, 1493, 1514]"

definition F_PRACTICE_AREAS :: pystr where
  "F_PRACTICE_AREAS = [1514, 1495, 1493, 1502, 1497, 32, 1506, 1497, 1505, 1493, 1511]"

definition F_ACTIVITY_FIELD :: pystr where
  "F_ACTIVITY_FIELD = [1514, 1495, 1493, 1501, 32, 1508, 1506, 1497, 1500, 1493, 1514]"

definition F_SPECIALTY :: pystr where
  "F_SPECIALTY = [1514, 1495, 1493, 1501, 32, 1492, 1514, 1502, 1495, 1493, 1514]"

definition F_LOGO :: pystr where
  "F_LOGO = [1500, 1493, 1490, 1493]"

definition F_COLORS :: pystr where
  "F_COLORS = [1510, 1489, 1506, 1497, 1501, 32, 1491, 1493, 1502, 1497, 1504, 1504, 1496, 1497, 1497, 1501]"

definition K_NAME :: pystr where
  "K_NAME = [1513, 1501]"

definition K_ROLE :: pystr where
  "K_ROLE = [1514, 1508, 1511, 1497, 1491]"

subsection \<open>Business name, lines 82 to 99\<close>

definition h1_ok :: "node \<Rightarrow> bool" where
  "h1_ok h1 = (length (strip (get_text h1)) > 3 \<and> length (strip (get_text h1)) < 50)"

definition extract_name :: "node \<Rightarrow> pystr" where
  "extract_name soup =
     (let title = (case bs_find soup [asc ''title''] [] of
                     Some t \<Rightarrow> strip (get_text t)
                   | None \<Rightarrow> [])
      in case List.find h1_ok (find_all soup [asc ''h1''] []) of
           Some h1 \<Rightarrow> strip (get_text h1)
         | None \<Rightarrow>
             (case bs_find soup [asc ''img'']
                     [(asc ''class'', MRe (alts [lit_i ''logo'', lit_i ''brand'']))] of
                None \<Rightarrow> title
              | Some logo \<Rightarrow>
                  (case get logo (asc ''alt'') of
                     None \<Rightarrow> title
                   | Some alt \<Rightarrow> if alt \<noteq> [] then alt else title)))"

subsection \<open>Phone, lines 102 to 129\<close>

text \<open>
  The four patterns, in the order of the source:
  \<open>(?:\+972[- ]?|0)[2-9]{1}[- ]?\d{7}\<close>, \<open>\+\d{1,3}[- ]?\d{1,4}[- ]?\d{4,}\<close>,
  \<open>\(\d{3,4}\)\s*\d{3}[- ]?\d{4}\<close> and \<open>\d{3}[- ]?\d{3}[- ]?\d{4}\<close>. The first pattern with a
  valid match decides; then the \<open>tel:\<close> links are tried.
\<close>

definition phone_patterns :: "rx list" where
  "phone_patterns =
     [seqs [Alt (Seq (lit ''+972'') (opt dash_space)) (lit ''0''),
            rep 1 (Cls (\<lambda>c. 50 \<le> c \<and> c \<le> 57)), opt dash_space, rep 7 digit],
      seqs [lit ''+'', rep_range 1 3 digit, opt dash_space, rep_range 1 4 digit, opt dash_space,
            rep_min 4 digit],
      seqs [lit ''('', rep_range 3 4 digit, lit '')'', Star (Cls isspace), rep 3 digit,
            opt dash_space, rep 4 digit],
      seqs [rep 3 digit, opt dash_space, rep 3 digit, opt dash_space, rep 4 digit]]"

fun phone_in_text :: "rx list \<Rightarrow> pystr \<Rightarrow> pystr option" where
  "phone_in_text [] txt = None"
| "phone_in_text (pattern # patterns) txt =
     (case filter is_valid_phone (findall pattern txt) of
        p # _ \<Rightarrow> Some p
      | [] \<Rightarrow> phone_in_text patterns txt)"

fun tel_links_loop :: "node list \<Rightarrow> py_error + pystr option" where
  "tel_links_loop [] = Inr None"
| "tel_links_loop (link # links) =
     (case getitem link (asc ''href'') of
        Inl e \<Rightarrow> Inl e
      | Inr href \<Rightarrow>
          let phone = replace href (asc ''tel:'') []
          in if is_valid_phone phone then Inr (Some phone) else tel_links_loop links)"

definition extract_phone :: "node \<Rightarrow> py_error + pystr" where
  "extract_phone soup =
     (case phone_in_text phone_patterns (get_text soup) of
        Some p \<Rightarrow> Inr p
      | None \<Rightarrow>
          (case tel_links_loop (find_all soup [asc ''a'']
                  [(asc ''href'', MRe (Seq Bol (lit ''tel:'')))]) of
             Inl e \<Rightarrow> Inl e
           | Inr (Some p) \<Rightarrow> Inr p
           | Inr None \<Rightarrow> Inr []))"

subsection \<open>Email, lines 132 to 149\<close>

fun mailto_links_loop :: "node list \<Rightarrow> py_error + pystr option" where
  "mailto_links_loop [] = Inr None"
| "mailto_links_loop (link # links) =
     (case getitem link (asc ''href'') of
        Inl e \<Rightarrow> Inl e
      | Inr href \<Rightarrow>
          (case split (replace href (asc ''mailto:'') []) (asc ''?'') of
             [] \<Rightarrow> Inl IndexError
           | email # _ \<Rightarrow>
               if is_valid_email email then Inr (Some email) else mailto_links_loop links))"

definition email_pattern :: rx where
  "email_pattern =
     seqs [many1 (Cls word_dot_dash), lit ''@'', many1 (Cls word_dot_dash), lit ''.'',
           rep_min 2 (Cls (\<lambda>c. 97 \<le> c \<and> c \<le> 122))]"

definition extract_email :: "node \<Rightarrow> py_error + pystr" where
  "extract_email soup =
     (case mailto_links_loop (find_all soup [asc ''a'']
             [(asc ''href'', MRe (Seq Bol (lit ''mailto:'')))]) of
        Inl e \<Rightarrow> Inl e
      | Inr (Some email) \<Rightarrow> Inr email
      | Inr None \<Rightarrow>
          (case filter is_valid_email (findall email_pattern (get_text soup)) of
             e # _ \<Rightarrow> Inr e
           | [] \<Rightarrow> Inr []))"

subsection \<open>Address, lines 152 to 181\<close>

definition cities :: "pystr list" where
  "cities =
     [[1514, 1500, 32, 1488, 1489, 1497, 1489], [1497, 1512, 1493, 1513, 1500, 1497, 1501],
      [1495, 1497, 1508, 1492], [1489, 1488, 1512, 32, 1513, 1489, 1506],
      [1512, 1502, 1514, 32, 1490, 1503], [1492, 1512, 1510, 1500, 1497, 1492],
      [1504, 1514, 1504, 1497, 1492], [1508, 1514, 1495, 32, 1514, 1511, 1493, 1493, 1492],
      [1488, 1513, 1491, 1493, 1491], [1488, 1497, 1500, 1514]]"

definition city_text_ok :: "node \<Rightarrow> bool" where
  "city_text_ok elem =
     (let txt = strip (get_text elem)
      in list_ex (\<lambda>city. contains city txt) cities \<and> length txt < 100 \<and> length txt > 10)"

definition address_len_ok :: "node \<Rightarrow> bool" where
  "address_len_ok elem =
     (length (strip (get_text elem)) > 5 \<and> length (strip (get_text elem)) < 150)"

definition rx_address :: rx where
  "rx_address = alts [lit_i ''address'', lit_i ''location'']"

definition address_fallbacks :: "node \<Rightarrow> pystr" where
  "address_fallbacks soup =
     (case bs_find soup [asc ''span''] [(asc ''itemprop'', MStr (asc ''address''))] of
        Some address_elem \<Rightarrow> strip (get_text address_elem)
      | None \<Rightarrow>
          (case List.find city_text_ok
                  (find_all soup [asc ''p'', asc ''div'', asc ''span'', asc ''address''] []) of
             Some elem \<Rightarrow> strip (get_text elem)
           | None \<Rightarrow>
               (case List.find address_len_ok
                       (find_all soup [] [(asc ''class'', MRe rx_address)]
                        @ find_all soup [] [(asc ''id'', MRe rx_address)]) of
                  Some elem \<Rightarrow> strip (get_text elem)
                | None \<Rightarrow> [])))"

definition extract_address :: "node \<Rightarrow> pystr" where
  "extract_address soup =
     (case bs_find soup [asc ''meta'']
             [(asc ''property'', MRe (alts [lit ''og:address'', lit ''place:location:address'']))] of
        None \<Rightarrow> address_fallbacks soup
      | Some meta_address \<Rightarrow>
          (case get meta_address (asc ''content'') of
             None \<Rightarrow> address_fallbacks soup
           | Some content \<Rightarrow> if content \<noteq> [] then content else address_fallbacks soup))"

subsection \<open>Opening hours, lines 184 to 215\<close>

definition days :: "pystr list" where
  "days =
     [[1512, 1488, 1513, 1493, 1503], [1513, 1504, 1497], [1513, 1500, 1497, 1513, 1497],
      [1512, 1489, 1497, 1506, 1497], [1495, 1502, 1497, 1513, 1497], [1513, 1497, 1513, 1497],
      [1513, 1489, 1514]]"

definition rx_hours :: rx where
  "rx_hours = alts [lit_i ''hours'', lit_i ''time'', lit_i ''schedule'']"

definition rx_clock :: rx where
  "rx_clock = seqs [rep_range 1 2 digit, Cls (\<lambda>c. c = 58 \<or> c = 46), rep 2 digit]"

definition hours_text_ok :: "node \<Rightarrow> bool" where
  "hours_text_ok elem =
     (let txt = strip (get_text elem)
      in list_ex (\<lambda>day. contains day txt) days \<and> re_found rx_clock txt)"

definition hours_lines :: "node \<Rightarrow> pystr" where
  "hours_lines elem =
     join [10] (map strip (filter (\<lambda>line. strip line \<noteq> [])
                             (split (strip (get_text elem)) [10])))"

definition row_cells :: "node \<Rightarrow> node list" where
  "row_cells row = find_all row [asc ''td'', asc ''th''] []"

definition row_has_day :: "node \<Rightarrow> bool" where
  "row_has_day row =
     (case row_cells row of
        [] \<Rightarrow> False
      | cell # _ \<Rightarrow> list_ex (\<lambda>day. contains day (get_text cell)) days)"

definition row_text :: "node \<Rightarrow> pystr" where
  "row_text row = join (asc '' '') (map (\<lambda>cell. strip (get_text cell)) (row_cells row))"

definition table_hours :: "node \<Rightarrow> pystr option" where
  "table_hours table =
     (let rows = find_all table [asc ''tr''] []
      in if 3 \<le> length rows \<and> length rows \<le> 8 \<and> list_ex row_has_day rows
         then Some (join [10] (filter (\<lambda>t. t \<noteq> []) (map row_text rows)))
         else None)"

fun tables_loop :: "node list \<Rightarrow> pystr" where
  "tables_loop [] = []"
| "tables_loop (table # tables) =
     (case table_hours table of Some h \<Rightarrow> h | None \<Rightarrow> tables_loop tables)"

definition extract_hours :: "node \<Rightarrow> pystr" where
  "extract_hours soup =
     (case List.find hours_text_ok
             (find_all soup [] [(asc ''class'', MRe rx_hours)]
              @ find_all soup [] [(asc ''id'', MRe rx_hours)]) of
        Some elem \<Rightarrow> hours_lines elem
      | None \<Rightarrow> tables_loop (find_all soup [asc ''table''] []))"

subsection \<open>Team, lines 218 to 269\<close>

text \<open>
  The list \<open>team\<close> is created once and every section appends to it; the first section after
  which it is not empty returns it. The comparison \<open>role_elem != name_elem\<close> is the
  equality of nodes.
\<close>

definition rx_team :: rx where
  "rx_team = alts [lit_i ''team'', lit_i ''staff'', lit_i ''personnel'', lit_i ''people'', lit_i ''about'']"

definition rx_person :: rx where
  "rx_person = alts [lit_i ''card'', lit_i ''member'', lit_i ''person'', lit_i ''profile'']"

definition rx_role :: rx where
  "rx_role = alts [lit_i ''role'', lit_i ''position'', lit_i ''title'']"

definition name_elem :: "node \<Rightarrow> node option" where
  "name_elem person =
     bs_find person [asc ''h3'', asc ''h4'', asc ''h5'', asc ''strong'', asc ''b''] []"

definition person_name :: "node \<Rightarrow> pystr" where
  "person_name person =
     (case name_elem person of Some e \<Rightarrow> strip (get_text e) | None \<Rightarrow> [])"

definition person_role :: "node \<Rightarrow> pystr" where
  "person_role person =
     (case bs_find person [] [(asc ''class'', MRe rx_role)] of
        Some role_elem \<Rightarrow> strip (get_text role_elem)
      | None \<Rightarrow>
          (case bs_find person [asc ''p'', asc ''span''] [] of
             None \<Rightarrow> []
           | Some role_elem \<Rightarrow>
               if Some role_elem \<noteq> name_elem person
               then strip (get_text role_elem) else []))"

definition person_email :: "node \<Rightarrow> py_error + pystr" where
  "person_email person =
     (case bs_find person [asc ''a''] [(asc ''href'', MRe (Seq Bol (lit ''mailto:'')))] of
        None \<Rightarrow> Inr []
      | Some email_elem \<Rightarrow>
          (case getitem email_elem (asc ''href'') of
             Inl e \<Rightarrow> Inl e
           | Inr href \<Rightarrow> Inr (replace href (asc ''mailto:'') [])))"

definition person_info :: "pystr \<Rightarrow> pystr \<Rightarrow> pystr \<Rightarrow> (pystr \<times> pystr) list" where
  "person_info name role email =
     [(K_NAME, name)] @ (if role \<noteq> [] then [(K_ROLE, role)] else [])
       @ (if email \<noteq> [] then [(F_EMAIL, email)] else [])"

fun persons_loop ::
  "node list \<Rightarrow> (pystr \<times> pystr) list list \<Rightarrow> py_error + (pystr \<times> pystr) list list" where
  "persons_loop [] team = Inr team"
| "persons_loop (person # persons) team =
     (case person_email person of
        Inl e \<Rightarrow> Inl e
      | Inr email \<Rightarrow>
          if person_name person \<noteq> []
          then persons_loop persons
                 (team @ [person_info (person_name person) (person_role person) email])
          else persons_loop persons team)"

definition person_elems :: "node \<Rightarrow> node list" where
  "person_elems section =
     (case find_all section [] [(asc ''class'', MRe rx_person)] of
        [] \<Rightarrow> find_all section [asc ''li''] []
      | ps \<Rightarrow> ps)"

fun sections_loop ::
  "node list \<Rightarrow> (pystr \<times> pystr) list list \<Rightarrow> py_error + (pystr \<times> pystr) list list" where
  "sections_loop [] team = Inr []"
| "sections_loop (section # sections) team =
     (case persons_loop (person_elems section) team of
        Inl e \<Rightarrow> Inl e
      | Inr team' \<Rightarrow> if team' \<noteq> [] then Inr team' else sections_loop sections team')"

definition extract_team :: "node \<Rightarrow> py_error + (pystr \<times> pystr) list list" where
  "extract_team soup =
     sections_loop (find_all soup [] [(asc ''class'', MRe rx_team)]
                    @ find_all soup [] [(asc ''id'', MRe rx_team)]) []"

subsection \<open>Social links, lines 272 to 299\<close>

definition social_patterns :: "(pystr \<times> rx) list" where
  "social_patterns =
     [(asc ''facebook'', lit ''facebook.com''),
      (asc ''twitter'', alts [lit ''twitter.com'', lit ''x.com'']),
      (asc ''instagram'', lit ''instagram.com''),
      (asc ''linkedin'', lit ''linkedin.com''),
      (asc ''youtube'', lit ''youtube.com''),
      (asc ''tiktok'', lit ''tiktok.com''),
      (asc ''whatsapp'', alts [lit ''wa.me'', lit ''whatsapp.com''])]"

definition platform_of :: "pystr \<Rightarrow> pystr option" where
  "platform_of href =
     map_option fst (List.find (\<lambda>pp. re_found (snd pp) href) social_patterns)"

text \<open>
  \<open>urljoin\<close> is a parameter. It can raise: \<open>urllib.parse.urljoin\<close> raises \<open>ValueError\<close> for a
  reference such as \<open>//[facebook.com\<close>, whose host has a bracket that is not closed, and the
  loop does not catch it.
\<close>

definition resolve ::
  "(pystr \<Rightarrow> pystr \<Rightarrow> py_error + pystr) \<Rightarrow> pystr \<Rightarrow> pystr \<Rightarrow> py_error + pystr" where
  "resolve urljoin base_url href =
     (if \<not> (startswith href (asc ''http://'') \<or> startswith href (asc ''https://''))
      then urljoin base_url href else Inr href)"

fun social_loop ::
  "(pystr \<Rightarrow> pystr \<Rightarrow> py_error + pystr) \<Rightarrow> pystr \<Rightarrow> node list \<Rightarrow> (pystr \<times> pystr) list \<Rightarrow>
     py_error + (pystr \<times> pystr) list" where
  "social_loop urljoin base_url [] social_links = Inr social_links"
| "social_loop urljoin base_url (link # links) social_links =
     (case getitem link (asc ''href'') of
        Inl e \<Rightarrow> Inl e
      | Inr href \<Rightarrow>
          (case platform_of href of
             None \<Rightarrow> social_loop urljoin base_url links social_links
           | Some platform \<Rightarrow>
               (case resolve urljoin base_url href of
                  Inl e \<Rightarrow> Inl e
                | Inr url \<Rightarrow>
                    social_loop urljoin base_url links (dict_set social_links platform url))))"

definition extract_social ::
  "(pystr \<Rightarrow> pystr \<Rightarrow> py_error + pystr) \<Rightarrow> node \<Rightarrow> pystr \<Rightarrow> py_error + (pystr \<times> pystr) list" where
  "extract_social urljoin soup base_url =
     social_loop urljoin base_url (find_all soup [asc ''a''] [(asc ''href'', MTrue)]) []"

subsection \<open>Business category, lines 302 to 337\<close>

text \<open>
  The headers are the h2 and h3 elements whose \<open>.string\<close> matches one of four Hebrew words;
  \<open>find_next\<close> is the first matching element after the header in document order, so the
  loop runs over the document order and looks at the nodes that follow.
\<close>

definition rx_services :: rx where
  "rx_services =
     alts [lit_s [1513, 1497, 1512, 1493, 1514, 1497, 1501],
           lit_s [1514, 1495, 1493, 1502, 1497],
           lit_s [1492, 1514, 1502, 1495, 1493, 1497, 1493, 1514],
           lit_s [1508, 1506, 1497, 1500, 1493, 1514]]"

definition is_service_header :: "node \<Rightarrow> bool" where
  "is_service_header x =
     (tag_matches [asc ''h2'', asc ''h3''] [] x
      \<and> (case string_of x of None \<Rightarrow> False | Some s \<Rightarrow> re_found rx_services s))"

definition services_of :: "node \<Rightarrow> pystr list option" where
  "services_of next_elem =
     (if tag_name next_elem = asc ''ul''
      then (let services = map (\<lambda>li. strip (get_text li)) (find_all next_elem [asc ''li''] [])
            in if services \<noteq> [] then Some services else None)
      else if tag_name next_elem \<in> set [asc ''div'', asc ''section'']
      then (let services =
                  filter (\<lambda>t. 5 < length t \<and> length t < 100)
                    (map (\<lambda>item. strip (get_text item))
                       (find_all next_elem [asc ''p'', asc ''h4'', asc ''h5'', asc ''span''] []))
            in if services \<noteq> [] then Some services else None)
      else None)"

fun headers_loop :: "node list \<Rightarrow> pystr list option" where
  "headers_loop [] = None"
| "headers_loop (x # following) =
     (if is_service_header x
      then (case List.find (tag_matches [asc ''ul'', asc ''div'', asc ''section''] []) following of
              None \<Rightarrow> headers_loop following
            | Some next_elem \<Rightarrow>
                (case services_of next_elem of
                   Some services \<Rightarrow> Some services
                 | None \<Rightarrow> headers_loop following))
      else headers_loop following)"

definition meta_content :: "node \<Rightarrow> pystr \<Rightarrow> pystr option" where
  "meta_content soup name =
     (case bs_find soup [asc ''meta''] [(asc ''name'', MStr name)] of
        None \<Rightarrow> None
      | Some m \<Rightarrow>
          (case get m (asc ''content'') of
             None \<Rightarrow> None
           | Some content \<Rightarrow> if content \<noteq> [] then Some content else None))"

definition category_fallbacks :: "node \<Rightarrow> pyvalue" where
  "category_fallbacks soup =
     (case headers_loop (descendants soup) of
        Some services \<Rightarrow> VList services
      | None \<Rightarrow>
          (case meta_content soup (asc ''description'') of
             Some content \<Rightarrow> VStr content
           | None \<Rightarrow> VStr []))"

definition extract_category :: "node \<Rightarrow> pyvalue" where
  "extract_category soup =
     (case meta_content soup (asc ''keywords'') of
        None \<Rightarrow> category_fallbacks soup
      | Some content \<Rightarrow>
          (let keywords = map strip (split content (asc '',''))
           in if keywords \<noteq> [] then VList keywords else category_fallbacks soup))"

subsection \<open>The dispatch\<close>

definition str_result :: "py_error + pystr \<Rightarrow> py_error + pyvalue" where
  "str_result r = (case r of Inl e \<Rightarrow> Inl e | Inr s \<Rightarrow> Inr (VStr s))"

definition extract_field ::
  "(pystr \<Rightarrow> pystr \<Rightarrow> py_error + pystr) \<Rightarrow> node \<Rightarrow> pystr \<Rightarrow> pystr \<Rightarrow> py_error + pyvalue" where
  "extract_field urljoin soup field_name base_url =
     (if field_name = F_NAME then Inr (VStr (extract_name soup))
      else if field_name = F_PHONE then str_result (extract_phone soup)
      else if field_name = F_EMAIL \<or> field_name = F_EMAIL_APOSTROPHE
              \<or> field_name = F_EMAIL_GERSHAYIM then str_result (extract_email soup)
      else if field_name = F_ADDRESS then Inr (VStr (extract_address soup))
      else if field_name = F_HOURS_ACTIVITY \<or> field_name = F_HOURS_OPENING
              \<or> field_name = F_HOURS_RECEPTION then Inr (VStr (extract_hours soup))
      else if field_name = F_TEAM \<or> field_name = F_DOCTORS
      then (case extract_team soup of Inl e \<Rightarrow> Inl e | Inr team \<Rightarrow> Inr (VTeam team))
      else if field_name = F_SOCIAL
      then (case extract_social urljoin soup base_url of
              Inl e \<Rightarrow> Inl e
            | Inr links \<Rightarrow> Inr (VDict links))
      else if field_name = F_PRACTICE_AREAS \<or> field_name = F_ACTIVITY_FIELD
              \<or> field_name = F_SPECIALTY then Inr (extract_category soup)
      else Inr (VStr []))"

section \<open>scraper.py: the orchestrator and the catalog\<close>

text \<open>
  \<open>scrape_website\<close>. The HTTP library, the parser and \<open>urljoin\<close> are parameters.
  \<open>requests_get\<close> returns the response or the message of the transport failure it raises;
  \<open>raise_for_status\<close> raises \<open>HTTPError\<close> for a status from 400 to 599. Both are caught as
  \<open>RequestException\<close> and raised again as \<open>Failed to fetch website\<close>; every other exception
  becomes \<open>Error during scraping\<close>. The parameters \<open>extract_colors\<close> and \<open>extract_logo\<close> of
  the source hide the imported functions of the same names: with \<open>extract_colors\<close> true,
  the body calls \<open>extract_color_palette\<close>, a name that is not defined, and with
  \<open>extract_logo\<close> true it calls the boolean. \<open>default_fields\<close> is the built-in field catalog
  of \<open>load_fields\<close> with the type tag of each field, and \<open>custom_profile\<close> the profile that
  the application builds from a selection of fields.
\<close>

record profile =
  profile_name :: pystr
  profile_fields :: "pystr list"
  mandatory_fields :: "pystr list"

definition custom_profile :: "pystr list \<Rightarrow> profile" where
  "custom_profile selected_fields =
     \<lparr>profile_name = [1502, 1493, 1514, 1488, 1501, 32, 1488, 1497, 1513, 1497, 1514],
      profile_fields = selected_fields, mandatory_fields = []\<rparr>"

datatype type_tag = T_string | T_email | T_url | T_array | T_object

definition default_fields :: "(pystr \<times> type_tag) list" where
  "default_fields =
     [(F_NAME, T_string), (F_PHONE, T_string), (F_EMAIL, T_email), (F_LOGO, T_url),
      (F_TEAM, T_array), (F_ADDRESS, T_string), (F_HOURS_ACTIVITY, T_string),
      (F_HOURS_RECEPTION, T_string), (F_HOURS_OPENING, T_string), (F_PRACTICE_AREAS, T_array),
      (F_SPECIALTY, T_string), (F_ACTIVITY_FIELD, T_string), (F_SOCIAL, T_object),
      (F_DOCTORS, T_array), (F_COLORS, T_array)]"

fun has_type :: "type_tag \<Rightarrow> pyvalue \<Rightarrow> bool" where
  "has_type T_array (VList xs) = True"
| "has_type T_array (VTeam xs) = True"
| "has_type T_object (VDict d) = True"
| "has_type T_string (VStr s) = True"
| "has_type T_email (VStr s) = True"
| "has_type T_url (VStr s) = True"
| "has_type t v = False"

record response =
  status_code :: nat
  body :: pystr

datatype request_exception = HTTPError nat | TransportError pystr

definition raise_for_status :: "response \<Rightarrow> request_exception option" where
  "raise_for_status r =
     (if 400 \<le> status_code r \<and> status_code r < 600 then Some (HTTPError (status_code r))
      else None)"

datatype scrape_failure = Failed_to_fetch request_exception | Error_during_scraping py_error

fun fields_loop ::
  "(pystr \<Rightarrow> pystr \<Rightarrow> py_error + pystr) \<Rightarrow> node \<Rightarrow> pystr \<Rightarrow> pystr list \<Rightarrow> (pystr \<times> pyvalue) list \<Rightarrow>
     py_error + (pystr \<times> pyvalue) list" where
  "fields_loop urljoin soup url [] extracted_data = Inr extracted_data"
| "fields_loop urljoin soup url (field # rest) extracted_data =
     (case extract_field urljoin soup field url of
        Inl e \<Rightarrow> Inl e
      | Inr v \<Rightarrow> fields_loop urljoin soup url rest (dict_set extracted_data field v))"

definition scrape_website ::
  "(pystr \<Rightarrow> pystr + response) \<Rightarrow> (pystr \<Rightarrow> node) \<Rightarrow> (pystr \<Rightarrow> pystr \<Rightarrow> py_error + pystr) \<Rightarrow>
     pystr \<Rightarrow> profile \<Rightarrow> bool \<Rightarrow> bool \<Rightarrow> bool \<Rightarrow>
     scrape_failure + (pystr \<times> pyvalue) list \<times> (pystr \<times> pystr list) list" where
  "scrape_website requests_get parse urljoin url prof extract_colors_flag extract_logo_flag
       extract_fonts_flag =
     (case requests_get url of
        Inl cause \<Rightarrow> Inl (Failed_to_fetch (TransportError cause))
      | Inr resp \<Rightarrow>
          (case raise_for_status resp of
             Some e \<Rightarrow> Inl (Failed_to_fetch e)
           | None \<Rightarrow>
               (let soup = parse (body resp)
                in case fields_loop urljoin soup url (profile_fields prof) [] of
                     Inl e \<Rightarrow> Inl (Error_during_scraping e)
                   | Inr extracted_data \<Rightarrow>
                       if extract_colors_flag then Inl (Error_during_scraping NameError)
                       else if extract_logo_flag then Inl (Error_during_scraping TypeError)
                       else Inr (extracted_data,
                                 if extract_fonts_flag
                                 then [(asc ''fonts'', identify_fonts soup (body resp))]
                                 else []))))"

section \<open>Notions used in the statements\<close>

text \<open>
  The hrefs of the hyperlinks of a document, in document order, and the field names that
  the dispatch of \<open>extract_field\<close> tests, in its order.
\<close>

definition link_hrefs :: "node \<Rightarrow> pystr list" where
  "link_hrefs soup =
     List.map_filter (\<lambda>link. get link (asc ''href'')) (find_all soup [asc ''a''] [(asc ''href'', MTrue)])"

definition vocabulary :: "pystr list" where
  "vocabulary =
     [F_NAME, F_PHONE, F_EMAIL, F_EMAIL_APOSTROPHE, F_EMAIL_GERSHAYIM, F_ADDRESS,
      F_HOURS_ACTIVITY, F_HOURS_OPENING, F_HOURS_RECEPTION, F_TEAM, F_DOCTORS, F_SOCIAL,
      F_PRACTICE_AREAS, F_ACTIVITY_FIELD, F_SPECIALTY]"

text \<open>
  What it means that a strategy finds nothing: every step of its cascade comes up empty.
  For the name: no H1 of suitable length, no alt text on the first logo image, no text in
  the first title. For the phone and the email: no valid match in the text and no valid
  link. For the address: no content in the address metadata, no address span, no element
  with a city name and no address element of suitable length. For the hours: no hours
  element with a day and a time, and no table of hours. For the team: no named person in
  any team section. For the social links: no hyperlink attributed to a platform. For the
  category: no keywords, no services under a services header, no description. A field
  outside the vocabulary has no strategy. \<open>empty_value\<close> is the value returned then.
\<close>

definition no_name :: "node \<Rightarrow> bool" where
  "no_name soup =
     (\<not> list_ex h1_ok (find_all soup [asc ''h1''] [])
      \<and> (case find_all soup [asc ''img'']
                 [(asc ''class'', MRe (alts [lit_i ''logo'', lit_i ''brand'']))] of
            [] \<Rightarrow> True
          | logo # _ \<Rightarrow> (case get logo (asc ''alt'') of None \<Rightarrow> True | Some alt \<Rightarrow> alt = []))
      \<and> (case find_all soup [asc ''title''] [] of
            [] \<Rightarrow> True
          | t # _ \<Rightarrow> strip (get_text t) = []))"

definition no_valid_phone :: "node \<Rightarrow> bool" where
  "no_valid_phone soup =
     (list_all (\<lambda>pattern. \<not> list_ex is_valid_phone (findall pattern (get_text soup))) phone_patterns
      \<and> list_all (\<lambda>link. case get link (asc ''href'') of
                           None \<Rightarrow> True
                         | Some href \<Rightarrow> \<not> is_valid_phone (replace href (asc ''tel:'') []))
            (find_all soup [asc ''a''] [(asc ''href'', MRe (Seq Bol (lit ''tel:'')))]))"

definition no_valid_email :: "node \<Rightarrow> bool" where
  "no_valid_email soup =
     (list_all (\<lambda>link. case get link (asc ''href'') of
                         None \<Rightarrow> True
                       | Some href \<Rightarrow>
                           (case split (replace href (asc ''mailto:'') []) (asc ''?'') of
                              [] \<Rightarrow> True
                            | email # _ \<Rightarrow> \<not> is_valid_email email))
          (find_all soup [asc ''a''] [(asc ''href'', MRe (Seq Bol (lit ''mailto:'')))])
      \<and> \<not> list_ex is_valid_email (findall email_pattern (get_text soup)))"

definition no_address :: "node \<Rightarrow> bool" where
  "no_address soup =
     ((case bs_find soup [asc ''meta'']
              [(asc ''property'', MRe (alts [lit ''og:address'', lit ''place:location:address'']))] of
         None \<Rightarrow> True
       | Some meta_address \<Rightarrow>
           (case get meta_address (asc ''content'') of None \<Rightarrow> True | Some content \<Rightarrow> content = []))
      \<and> find_all soup [asc ''span''] [(asc ''itemprop'', MStr (asc ''address''))] = []
      \<and> \<not> list_ex city_text_ok
            (find_all soup [asc ''p'', asc ''div'', asc ''span'', asc ''address''] [])
      \<and> \<not> list_ex address_len_ok
            (find_all soup [] [(asc ''class'', MRe rx_address)]
             @ find_all soup [] [(asc ''id'', MRe rx_address)]))"

definition no_hours :: "node \<Rightarrow> bool" where
  "no_hours soup =
     (\<not> list_ex hours_text_ok
          (find_all soup [] [(asc ''class'', MRe rx_hours)]
           @ find_all soup [] [(asc ''id'', MRe rx_hours)])
      \<and> list_all (\<lambda>table. table_hours table = None) (find_all soup [asc ''table''] []))"

definition no_named_member :: "node \<Rightarrow> bool" where
  "no_named_member soup =
     list_all (\<lambda>team_section. list_all (\<lambda>person. person_name person = []) (person_elems team_section))
       (find_all soup [] [(asc ''class'', MRe rx_team)] @ find_all soup [] [(asc ''id'', MRe rx_team)])"

definition no_social_link :: "node \<Rightarrow> bool" where
  "no_social_link soup = list_all (\<lambda>href. platform_of href = None) (link_hrefs soup)"

definition no_category :: "node \<Rightarrow> bool" where
  "no_category soup =
     (meta_content soup (asc ''keywords'') = None
      \<and> headers_loop (descendants soup) = None
      \<and> meta_content soup (asc ''description'') = None)"

definition finds_nothing :: "node \<Rightarrow> pystr \<Rightarrow> bool" where
  "finds_nothing soup field_name =
     (if field_name = F_NAME then no_name soup
      else if field_name = F_PHONE then no_valid_phone soup
      else if field_name = F_EMAIL \<or> field_name = F_EMAIL_APOSTROPHE
              \<or> field_name = F_EMAIL_GERSHAYIM then no_valid_email soup
      else if field_name = F_ADDRESS then no_address soup
      else if field_name = F_HOURS_ACTIVITY \<or> field_name = F_HOURS_OPENING
              \<or> field_name = F_HOURS_RECEPTION then no_hours soup
      else if field_name = F_TEAM \<or> field_name = F_DOCTORS then no_named_member soup
      else if field_name = F_SOCIAL then no_social_link soup
      else if field_name = F_PRACTICE_AREAS \<or> field_name = F_ACTIVITY_FIELD
              \<or> field_name = F_SPECIALTY then no_category soup
      else True)"

definition empty_value :: "pystr \<Rightarrow> pyvalue" where
  "empty_value field_name =
     (if field_name = F_TEAM \<or> field_name = F_DOCTORS then VTeam []
      else if field_name = F_SOCIAL then VDict []
      else VStr [])"

text \<open>
  An instance of \<open>urljoin\<close> for the evaluations below. \<open>urljoin\<close> returns the reference when
  the base is empty and the base when the reference is empty. Otherwise the evaluations
  join a base URL that has no path with a reference that is an absolute path, where
  \<open>urljoin\<close> returns the two concatenated, or with a reference whose host has a bracket that
  is not closed, where it raises \<open>ValueError\<close>.
\<close>

definition urljoin_sample :: "pystr \<Rightarrow> pystr \<Rightarrow> py_error + pystr" where
  "urljoin_sample base_url href =
     (if base_url = [] then Inr href
      else if href = [] then Inr base_url
      else if contains (asc ''['') href \<and> \<not> contains (asc '']'') href then Inl ValueError
      else Inr (base_url @ href))"

section \<open>Example documents\<close>

text \<open>
  Small documents on which the statements below are evaluated.
\<close>

definition doc_two_logos :: node where
  "doc_two_logos =
     Element (asc ''[document]'') []
       [Element (asc ''title'') [] [Text Plain (asc '' Shop '')],
        Element (asc ''h1'') [] [Text Plain (asc ''Hi'')],
        Element (asc ''img'') [(asc ''class'', asc ''site-logo''), (asc ''src'', asc ''/l.png'')] [],
        Element (asc ''img'') [(asc ''class'', asc ''Brand''), (asc ''alt'', asc ''Acme'')] []]"

definition doc_h1_and_logo :: node where
  "doc_h1_and_logo =
     Element (asc ''[document]'') []
       [Element (asc ''h1'') [] [Text Plain (asc ''Hi'')],
        Element (asc ''img'') [(asc ''class'', asc ''logo''), (asc ''alt'', asc ''Acme'')] [],
        Element (asc ''h1'') [] [Text Plain (asc '' Acme Ltd '')]]"

definition doc_logo_alt :: node where
  "doc_logo_alt =
     Element (asc ''[document]'') []
       [Element (asc ''img'') [(asc ''class'', asc ''logo''), (asc ''alt'', asc ''Acme'')] []]"

definition doc_two_facebook :: node where
  "doc_two_facebook =
     Element (asc ''[document]'') []
       [Element (asc ''a'') [(asc ''href'', asc ''https://facebook.com/first'')] [],
        Element (asc ''a'') [(asc ''href'', asc ''/x.com/me'')] [],
        Element (asc ''a'') [(asc ''href'', asc ''https://facebook.com/second'')] []]"

definition person_card :: node where
  "person_card =
     Element (asc ''li'') []
       [Element (asc ''b'') [] [Text Plain (asc ''Dana'')],
        Element (asc ''a'') [(asc ''href'', asc ''mailto:dana@x.co?subject=Hi'')] []]"

definition doc_team_nested_mailto :: node where
  "doc_team_nested_mailto =
     Element (asc ''[document]'') []
       [Element (asc ''div'') [(asc ''class'', asc ''team'')]
          [Element (asc ''li'') []
             [Element (asc ''b'') [] [Text Plain (asc ''Dana'')],
              Element (asc ''a'') [(asc ''href'', asc ''mailto:d@x.co?cc=mailto:e@x.co'')] []]]]"

definition doc_mailto :: node where
  "doc_mailto =
     Element (asc ''[document]'') []
       [Element (asc ''a'') [(asc ''href'', asc ''mailto:info@x.co?subject=Hi'')] []]"


definition doc_heading :: node where
  "doc_heading =
     Element (asc ''[document]'') [] [Element (asc ''h1'') [] [Text Plain (asc ''Acme Law Office'')]]"

definition doc_paragraph :: node where
  "doc_paragraph =
     Element (asc ''[document]'') [] [Element (asc ''p'') [] [Text Plain (asc ''hello'')]]"

definition doc_bracket_link :: node where
  "doc_bracket_link =
     Element (asc ''[document]'') []
       [Element (asc ''a'') [(asc ''href'', asc ''//[facebook.com'')] [Text Plain (asc ''Facebook'')]]"

definition doc_empty :: node where
  "doc_empty = Element (asc ''[document]'') [] []"

section \<open>Properties of the palette ranking\<close>












section \<open>Properties of the font list\<close>

lemma normalize_fonts_member:
  "f \<in> set (normalize_fonts fonts) \<Longrightarrow> f \<noteq> [] \<and> lower f \<notin> set generic_families"
  by (auto simp: normalize_fonts_def)

text \<open>
  Claim C7. For every document, the font list is sorted ascending (strings compare as
  sequences of code points), has no duplicates, and holds neither the empty string nor a
  string whose lower-case form is one of the generic family keywords.
\<close>

theorem identify_fonts_sorted_unique:
  "sorted (identify_fonts soup html_content)
   \<and> distinct (identify_fonts soup html_content)
   \<and> (\<forall>f\<in>set (identify_fonts soup html_content).
         f \<noteq> []
         \<and> lower f \<notin> set [asc ''serif'', asc ''sans-serif'', asc ''monospace'', asc ''cursive'',
                             asc ''fantasy''])"
proof -
  have "\<forall>f\<in>set (identify_fonts soup html_content). f \<noteq> [] \<and> lower f \<notin> set generic_families"
    using normalize_fonts_member by (auto simp: identify_fonts_def)
  then show ?thesis
    by (auto simp: identify_fonts_def generic_families_def)
qed

lemma fonts_example:
  "identify_fonts
     (Element (asc ''[document]'') []
        [Element (asc ''link'')
           [(asc ''href'', asc ''https://fonts.googleapis.com/css?family=Roboto|Open+Sans'')] [],
         Element (asc ''p'') [(asc ''style'', asc ''font-family: Arial, SERIF'')] []])
     (asc ''<link href=\"https://fonts.googleapis.com/css?family=Roboto|Open+Sans\"><p style=\"font-family: Arial, SERIF\"></p>'')
   = [asc ''Arial'', asc ''Open Sans'', asc ''Roboto'']"
  by code_simp

theorem identify_fonts_sorted_unique_witness:
  "identify_fonts
     (Element (asc ''[document]'') []
        [Element (asc ''link'')
           [(asc ''href'', asc ''https://fonts.googleapis.com/css?family=Roboto|Open+Sans'')] [],
         Element (asc ''p'') [(asc ''style'', asc ''font-family: Arial, SERIF'')] []])
     (asc ''<link href=\"https://fonts.googleapis.com/css?family=Roboto|Open+Sans\"><p style=\"font-family: Arial, SERIF\"></p>'')
   = [asc ''Arial'', asc ''Open Sans'', asc ''Roboto'']
   \<and> sorted [asc ''Arial'', asc ''Open Sans'', asc ''Roboto'']
   \<and> distinct [asc ''Arial'', asc ''Open Sans'', asc ''Roboto'']
   \<and> list_all (\<lambda>f. f \<noteq> [] \<and> lower f \<notin> set [asc ''serif'', asc ''sans-serif'', asc ''monospace'',
                                                  asc ''cursive'', asc ''fantasy''])
         [asc ''Arial'', asc ''Open Sans'', asc ''Roboto'']"
  using identify_fonts_sorted_unique
    [of "Element (asc ''[document]'') []
        [Element (asc ''link'')
           [(asc ''href'', asc ''https://fonts.googleapis.com/css?family=Roboto|Open+Sans'')] [],
         Element (asc ''p'') [(asc ''style'', asc ''font-family: Arial, SERIF'')] []]"
       "asc ''<link href=\"https://fonts.googleapis.com/css?family=Roboto|Open+Sans\"><p style=\"font-family: Arial, SERIF\"></p>''"]
  unfolding fonts_example list_all_iff by blast

text \<open>
  Claim C8. The weight and style suffix of a Google Fonts family is removed by
  \<open>re.sub(r':[^,]+', '', family)\<close>, which stops at the first comma: for the stylesheet link
  \<open>family=Roboto:400,700\<close> the font list holds \<open>Roboto,700\<close>, not \<open>Roboto\<close>.
\<close>

theorem google_fonts_suffix_kept:
  "identify_fonts
     (Element (asc ''[document]'') []
        [Element (asc ''link'')
           [(asc ''rel'', asc ''stylesheet''),
            (asc ''href'', asc ''https://fonts.googleapis.com/css?family=Roboto:400,700'')] []])
     (asc ''<link rel=\"stylesheet\" href=\"https://fonts.googleapis.com/css?family=Roboto:400,700\">'')
   = [asc ''Roboto,700'']"
  by code_simp

section \<open>Properties of the colour palette\<close>

text \<open>
  Claim C2. The colours that the custom-property fallback appends are neither filtered nor
  deduplicated: for an element with \<open>style="--main:#fff;--brand:#FFF"\<close> the palette is
  \<open>#fff\<close> twice, whatever the order in which the set of colours is enumerated and whatever
  the style sheet parser.
\<close>

theorem fallback_palette_unfiltered:
  assumes "enumerates set_list"
  shows "extract_colors hsv_exact set_list parse_css
     (Element (asc ''[document]'') []
        [Element (asc ''p'') [(asc ''style'', asc ''--main:#fff;--brand:#FFF'')] []])
     (asc ''<p style=\"--main:#fff;--brand:#FFF\"></p>'') 5
   = Inr [asc ''#fff'', asc ''#fff'']"
proof -
  let ?doc = "Element (asc ''[document]'') []
        [Element (asc ''p'') [(asc ''style'', asc ''--main:#fff;--brand:#FFF'')] []]"
  let ?html = "asc ''<p style=\"--main:#fff;--brand:#FFF\"></p>''"
  have styles: "find_all ?doc [asc ''style''] [] = []" by code_simp
  have inline: "map lower (inline_colors (find_all ?doc [] [(asc ''style'', MTrue)]) [])
                  = [asc ''#fff'', asc ''#fff'']"
    by code_simp
  have "asc ''#fff'' \<in> set excluded_colors" by code_simp
  moreover have "set (set_list [asc ''#fff'', asc ''#fff'']) = {asc ''#fff''}"
    using assms by (simp add: enumerates_def)
  ultimately have filtered:
    "filter (\<lambda>c. c \<notin> set excluded_colors) (set_list [asc ''#fff'', asc ''#fff'']) = []"
    by (simp add: filter_empty_conv)
  have fallback: "fallback_colors ?html = [asc ''#fff'', asc ''#fff'']" by code_simp
  have ranked: "sort_colors_by_distinctiveness hsv_exact [asc ''#fff'', asc ''#fff'']
                  = Inr [asc ''#fff'', asc ''#fff'']"
    by code_simp
  show ?thesis
    unfolding extract_colors_def extract_colors_from_def styles
    by (simp add: inline filtered fallback ranked py_take_def)
qed

theorem fallback_palette_unfiltered_witness:
  "enumerates remdups
   \<and> extract_colors hsv_exact remdups (\<lambda>css. Inr [])
       (Element (asc ''[document]'') []
          [Element (asc ''p'') [(asc ''style'', asc ''--main:#fff;--brand:#FFF'')] []])
       (asc ''<p style=\"--main:#fff;--brand:#FFF\"></p>'') 5
     = Inr [asc ''#fff'', asc ''#fff'']"
proof -
  have e: "enumerates remdups" by (simp add: enumerates_def)
  from fallback_palette_unfiltered [OF e, of "\<lambda>css. Inr []"] e show ?thesis by blast
qed

section \<open>Properties of the field extractor\<close>

lemma find_filter: "List.find P xs = (case filter P xs of [] \<Rightarrow> None | x # _ \<Rightarrow> Some x)"
  by (induction xs) auto

lemma bs_find_find_all:
  "bs_find tree names attrs = (case find_all tree names attrs of [] \<Rightarrow> None | x # _ \<Rightarrow> Some x)"
  by (simp add: bs_find_def find_all_def find_filter)

lemma find_first:
  "xs = pre @ x # post \<Longrightarrow> \<forall>y\<in>set pre. \<not> P y \<Longrightarrow> P x \<Longrightarrow> List.find P xs = Some x"
  by (induction pre arbitrary: xs) auto

lemma find_none: "\<forall>y\<in>set xs. \<not> P y \<Longrightarrow> List.find P xs = None"
  by (simp add: find_None_iff)

lemma dispatch_name: "extract_field urljoin soup F_NAME base_url = Inr (VStr (extract_name soup))"
  by (simp add: extract_field_def)

text \<open>
  Claim C6, as the code has it. The business name is the stripped text of the first H1 in
  document order whose stripped text has more than 3 and fewer than 50 characters. If no H1
  qualifies, only the first image whose class matches logo or brand is looked at: its alt
  text is the name if it is present and not empty. In every other case the name is the
  stripped text of the first title element, or the empty string when there is none.
\<close>

theorem business_name_cascade:
  fixes soup :: node
  defines "h1s \<equiv> find_all soup [asc ''h1''] []"
      and "imgs \<equiv> find_all soup [asc ''img''] [(asc ''class'', MRe (alts [lit_i ''logo'', lit_i ''brand'']))]"
      and "title \<equiv> (case find_all soup [asc ''title''] [] of [] \<Rightarrow> [] | t # _ \<Rightarrow> strip (get_text t))"
      and "ok \<equiv> (\<lambda>h. 3 < length (strip (get_text h)) \<and> length (strip (get_text h)) < 50)"
  shows "(h1s = pre @ h # post \<and> (\<forall>x\<in>set pre. \<not> ok x) \<and> ok h
            \<longrightarrow> extract_field urljoin soup F_NAME base_url = Inr (VStr (strip (get_text h))))
       \<and> ((\<forall>x\<in>set h1s. \<not> ok x) \<and> imgs = logo # others \<and> get logo (asc ''alt'') = Some alt
             \<and> alt \<noteq> []
            \<longrightarrow> extract_field urljoin soup F_NAME base_url = Inr (VStr alt))
       \<and> ((\<forall>x\<in>set h1s. \<not> ok x)
             \<and> (imgs = [] \<or> get (hd imgs) (asc ''alt'') = None \<or> get (hd imgs) (asc ''alt'') = Some [])
            \<longrightarrow> extract_field urljoin soup F_NAME base_url = Inr (VStr title))"
proof (intro conjI impI)
  assume a: "h1s = pre @ h # post \<and> (\<forall>x\<in>set pre. \<not> ok x) \<and> ok h"
  then have "List.find h1_ok (find_all soup [asc ''h1''] []) = Some h"
    using find_first [of h1s pre h post h1_ok]
    by (simp add: h1s_def ok_def h1_ok_def)
  then show "extract_field urljoin soup F_NAME base_url = Inr (VStr (strip (get_text h)))"
    by (simp add: dispatch_name extract_name_def)
next
  assume a: "(\<forall>x\<in>set h1s. \<not> ok x) \<and> imgs = logo # others \<and> get logo (asc ''alt'') = Some alt
             \<and> alt \<noteq> []"
  then have "List.find h1_ok (find_all soup [asc ''h1''] []) = None"
    using find_none [of h1s h1_ok] by (simp add: h1s_def ok_def h1_ok_def)
  moreover have "bs_find soup [asc ''img''] [(asc ''class'', MRe (alts [lit_i ''logo'', lit_i ''brand'']))]
      = Some logo"
    using a by (simp add: bs_find_find_all imgs_def)
  ultimately show "extract_field urljoin soup F_NAME base_url = Inr (VStr alt)"
    using a by (simp add: dispatch_name extract_name_def)
next
  assume a: "(\<forall>x\<in>set h1s. \<not> ok x)
             \<and> (imgs = [] \<or> get (hd imgs) (asc ''alt'') = None \<or> get (hd imgs) (asc ''alt'') = Some [])"
  then have n: "List.find h1_ok (find_all soup [asc ''h1''] []) = None"
    using find_none [of h1s h1_ok] by (simp add: h1s_def ok_def h1_ok_def)
  have t: "(case bs_find soup [asc ''title''] [] of Some t \<Rightarrow> strip (get_text t) | None \<Rightarrow> []) = title"
    by (simp add: bs_find_find_all title_def split: list.splits)
  show "extract_field urljoin soup F_NAME base_url = Inr (VStr title)"
  proof (cases imgs)
    case Nil
    then have "bs_find soup [asc ''img''] [(asc ''class'', MRe (alts [lit_i ''logo'', lit_i ''brand'']))]
        = None"
      by (simp add: bs_find_find_all imgs_def)
    then show ?thesis using n t by (simp add: dispatch_name extract_name_def)
  next
    case (Cons logo others)
    then have f: "bs_find soup [asc ''img''] [(asc ''class'', MRe (alts [lit_i ''logo'', lit_i ''brand'']))]
        = Some logo"
      by (simp add: bs_find_find_all imgs_def)
    from a Cons have "get logo (asc ''alt'') = None \<or> get logo (asc ''alt'') = Some []" by simp
    then show ?thesis using n t f by (auto simp: dispatch_name extract_name_def)
  qed
qed

lemma imgs_two_logos:
  "find_all doc_two_logos [asc ''img''] [(asc ''class'', MRe (alts [lit_i ''logo'', lit_i ''brand'']))]
     = [Element (asc ''img'') [(asc ''class'', asc ''site-logo''), (asc ''src'', asc ''/l.png'')] [],
        Element (asc ''img'') [(asc ''class'', asc ''Brand''), (asc ''alt'', asc ''Acme'')] []]"
  by code_simp

theorem business_name_cascade_witness:
  "extract_field urljoin_sample doc_h1_and_logo F_NAME [] = Inr (VStr (asc ''Acme Ltd''))
   \<and> extract_field urljoin_sample doc_logo_alt F_NAME [] = Inr (VStr (asc ''Acme''))
   \<and> extract_field urljoin_sample doc_two_logos F_NAME [] = Inr (VStr (asc ''Shop''))"
proof (intro conjI)
  have "extract_field urljoin_sample doc_h1_and_logo F_NAME []
          = Inr (VStr (strip (get_text (Element (asc ''h1'') [] [Text Plain (asc '' Acme Ltd '')]))))"
    by (rule business_name_cascade
          [where soup = doc_h1_and_logo and pre = "[Element (asc ''h1'') [] [Text Plain (asc ''Hi'')]]"
             and post = "[]", THEN conjunct1, THEN mp]) code_simp
  moreover have "strip (get_text (Element (asc ''h1'') [] [Text Plain (asc '' Acme Ltd '')])) = asc ''Acme Ltd''"
    by code_simp
  ultimately show "extract_field urljoin_sample doc_h1_and_logo F_NAME [] = Inr (VStr (asc ''Acme Ltd''))"
    by simp
  show "extract_field urljoin_sample doc_logo_alt F_NAME [] = Inr (VStr (asc ''Acme''))"
    by (rule business_name_cascade
          [where soup = doc_logo_alt
             and logo = "Element (asc ''img'') [(asc ''class'', asc ''logo''), (asc ''alt'', asc ''Acme'')] []"
             and others = "[]", THEN conjunct2, THEN conjunct1, THEN mp]) code_simp
  have "extract_field urljoin_sample doc_two_logos F_NAME []
          = Inr (VStr (case find_all doc_two_logos [asc ''title''] [] of
                         [] \<Rightarrow> [] | t # _ \<Rightarrow> strip (get_text t)))"
    by (rule business_name_cascade
          [where soup = doc_two_logos, THEN conjunct2, THEN conjunct2, THEN mp]) code_simp
  moreover have "(case find_all doc_two_logos [asc ''title''] [] of
                    [] \<Rightarrow> [] | t # _ \<Rightarrow> strip (get_text t)) = asc ''Shop''"
    by code_simp
  ultimately show "extract_field urljoin_sample doc_two_logos F_NAME [] = Inr (VStr (asc ''Shop''))"
    by simp
qed

text \<open>
  The claim as stated fails: here the first logo image has no alt text and the second one
  does, and the name is the page title, not the second image's alt text.
\<close>

theorem business_name_second_logo_ignored:
  "extract_field urljoin_sample doc_two_logos F_NAME [] = Inr (VStr (asc ''Shop''))
   \<and> find_all doc_two_logos [asc ''img''] [(asc ''class'', MRe (alts [lit_i ''logo'', lit_i ''brand'']))]
       = [Element (asc ''img'') [(asc ''class'', asc ''site-logo''), (asc ''src'', asc ''/l.png'')] [],
          Element (asc ''img'') [(asc ''class'', asc ''Brand''), (asc ''alt'', asc ''Acme'')] []]
   \<and> get (Element (asc ''img'') [(asc ''class'', asc ''Brand''), (asc ''alt'', asc ''Acme'')] [])
         (asc ''alt'') = Some (asc ''Acme'')
   \<and> asc ''Acme'' \<noteq> asc ''Shop''"
proof -
  have "extract_name doc_two_logos = asc ''Shop''" by code_simp
  then have "extract_field urljoin_sample doc_two_logos F_NAME [] = Inr (VStr (asc ''Shop''))"
    by (simp add: dispatch_name)
  moreover have "asc ''Acme'' \<noteq> asc ''Shop''" by (simp add: asc_def)
  ultimately show ?thesis unfolding imgs_two_logos by (simp add: asc_def)
qed

section \<open>Properties of the social links\<close>

lemma find_all_matches: "x \<in> set (find_all tree names attrs) \<Longrightarrow> tag_matches names attrs x"
  by (simp add: find_all_def)

lemma tag_matches_has_attr: "tag_matches names attrs x \<Longrightarrow> km \<in> set attrs \<Longrightarrow> get x (fst km) \<noteq> None"
  by (auto simp: tag_matches_def list_all_iff attr_matches_def split: option.splits)

lemma find_all_has_attr:
  "x \<in> set (find_all tree names attrs) \<Longrightarrow> (k, m) \<in> set attrs \<Longrightarrow> get x k \<noteq> None"
  using find_all_matches tag_matches_has_attr by fastforce

lemma map_of_dict_set: "map_of (dict_set d k v) = (map_of d)(k \<mapsto> v)"
  by (induction d) (auto simp: fun_eq_iff)

lemma keys_dict_set: "fst ` set (dict_set d k v) = insert k (fst ` set d)"
  by (induction d) auto

lemma distinct_dict_set: "distinct (map fst d) \<Longrightarrow> distinct (map fst (dict_set d k v))"
proof (induction d)
  case Nil
  then show ?case by simp
next
  case (Cons p d)
  then show ?case using keys_dict_set [of d k v] by auto
qed

lemma find_in_set: "List.find P xs = Some x \<Longrightarrow> x \<in> set xs"
  by (induction xs) (auto split: if_splits)

lemma platform_of_in_table: "platform_of href = Some p \<Longrightarrow> p \<in> fst ` set social_patterns"
  by (force simp: platform_of_def dest!: find_in_set)

lemma social_loop_returns:
  assumes "\<forall>l\<in>set links. get l (asc ''href'') \<noteq> None"
      and "social_loop urljoin base_url links d = Inr d'"
  shows "(distinct (map fst d) \<longrightarrow> distinct (map fst d'))
       \<and> fst ` set d' \<subseteq> fst ` set d \<union> fst ` set social_patterns
       \<and> (\<forall>p. if filter (\<lambda>h. platform_of h = Some p)
                      (List.map_filter (\<lambda>link. get link (asc ''href'')) links) = []
                then map_of d' p = map_of d p
                else (\<exists>url. resolve urljoin base_url
                               (last (filter (\<lambda>h. platform_of h = Some p)
                                  (List.map_filter (\<lambda>link. get link (asc ''href'')) links)))
                             = Inr url
                           \<and> map_of d' p = Some url))"
  using assms
proof (induction links arbitrary: d)
  case Nil
  then show ?case by (simp add: map_filter_simps)
next
  case (Cons link links)
  then obtain href where href: "get link (asc ''href'') = Some href" by auto
  then have gi: "getitem link (asc ''href'') = Inr href" by (simp add: getitem_def)
  from Cons.prems have rest: "\<forall>l\<in>set links. get l (asc ''href'') \<noteq> None" by simp
  let ?hrefs = "List.map_filter (\<lambda>link. get link (asc ''href'')) links"
  show ?case
  proof (cases "platform_of href")
    case None
    then have run: "social_loop urljoin base_url links d = Inr d'"
      using Cons.prems(2) by (simp add: gi)
    from Cons.IH [OF rest run] None show ?thesis
      by (simp add: href map_filter_simps)
  next
    case (Some platform)
    then obtain url where url: "resolve urljoin base_url href = Inr url"
      and run: "social_loop urljoin base_url links (dict_set d platform url) = Inr d'"
      using Cons.prems(2) by (auto simp: gi split: sum.splits)
    note ih = Cons.IH [OF rest run]
    have pin: "platform \<in> fst ` set social_patterns"
      using Some by (rule platform_of_in_table)
    have 1: "distinct (map fst d) \<longrightarrow> distinct (map fst d')"
      using ih by (simp add: distinct_dict_set)
    have 2: "fst ` set d' \<subseteq> fst ` set d \<union> fst ` set social_patterns"
      using ih pin keys_dict_set [of d platform url] by auto
    have 3: "if filter (\<lambda>h. platform_of h = Some p) (href # ?hrefs) = []
                then map_of d' p = map_of d p
                else (\<exists>url. resolve urljoin base_url
                               (last (filter (\<lambda>h. platform_of h = Some p) (href # ?hrefs)))
                             = Inr url
                           \<and> map_of d' p = Some url)" for p
    proof (cases "filter (\<lambda>h. platform_of h = Some p) ?hrefs = []")
      case True
      then have m: "map_of d' p = map_of (dict_set d platform url) p" using ih by simp
      show ?thesis
      proof (cases "p = platform")
        case True
        then show ?thesis
          using m Some url \<open>filter (\<lambda>h. platform_of h = Some p) ?hrefs = []\<close>
          by (simp add: map_of_dict_set)
      next
        case False
        then show ?thesis
          using m Some \<open>filter (\<lambda>h. platform_of h = Some p) ?hrefs = []\<close>
          by (simp add: map_of_dict_set)
      qed
    next
      case False
      then have "\<exists>url. resolve urljoin base_url
                               (last (filter (\<lambda>h. platform_of h = Some p) ?hrefs)) = Inr url
                           \<and> map_of d' p = Some url"
        using ih by simp
      then show ?thesis using False by simp
    qed
    have hs: "List.map_filter (\<lambda>link. get link (asc ''href'')) (link # links) = href # ?hrefs"
      by (simp add: href map_filter_simps)
    show ?thesis unfolding hs by (intro conjI allI) (rule 1, rule 2, rule 3)
  qed
qed

lemma social_loop_raises:
  assumes "\<forall>l\<in>set links. get l (asc ''href'') \<noteq> None"
      and "social_loop urljoin base_url links d = Inl e"
  shows "\<exists>href\<in>set (List.map_filter (\<lambda>link. get link (asc ''href'')) links).
           platform_of href \<noteq> None \<and> resolve urljoin base_url href = Inl e"
  using assms
proof (induction links arbitrary: d)
  case Nil
  then show ?case by simp
next
  case (Cons link links)
  then obtain href where href: "get link (asc ''href'') = Some href" by auto
  then have gi: "getitem link (asc ''href'') = Inr href" by (simp add: getitem_def)
  from Cons.prems have rest: "\<forall>l\<in>set links. get l (asc ''href'') \<noteq> None" by simp
  show ?case
  proof (cases "platform_of href")
    case None
    then have "social_loop urljoin base_url links d = Inl e"
      using Cons.prems(2) by (simp add: gi)
    from Cons.IH [OF rest this] show ?thesis by (auto simp: href map_filter_simps)
  next
    case (Some platform)
    show ?thesis
    proof (cases "resolve urljoin base_url href")
      case (Inl err)
      then have "err = e" using Cons.prems(2) Some by (simp add: gi)
      then show ?thesis using Inl Some by (auto simp: href map_filter_simps)
    next
      case (Inr url)
      then have "social_loop urljoin base_url links (dict_set d platform url) = Inl e"
        using Cons.prems(2) Some by (simp add: gi)
      from Cons.IH [OF rest this] show ?thesis by (auto simp: href map_filter_simps)
    qed
  qed
qed

lemma links_have_href:
  "\<forall>l\<in>set (find_all soup [asc ''a''] [(asc ''href'', MTrue)]). get l (asc ''href'') \<noteq> None"
  using find_all_has_attr by fastforce

lemma extract_social_raises:
  "extract_social urljoin soup base_url = Inl e \<Longrightarrow>
     \<exists>href\<in>set (link_hrefs soup). platform_of href \<noteq> None \<and> resolve urljoin base_url href = Inl e"
  using social_loop_raises [OF links_have_href] by (simp add: extract_social_def link_hrefs_def)

lemma dispatch_social:
  "extract_field urljoin soup F_SOCIAL base_url =
     (case extract_social urljoin soup base_url of Inl e \<Rightarrow> Inl e | Inr links \<Rightarrow> Inr (VDict links))"
  by (simp add: extract_field_def F_SOCIAL_def F_NAME_def F_PHONE_def F_EMAIL_def
        F_EMAIL_APOSTROPHE_def F_EMAIL_GERSHAYIM_def F_ADDRESS_def F_HOURS_ACTIVITY_def
        F_HOURS_OPENING_def F_HOURS_RECEPTION_def F_TEAM_def F_DOCTORS_def)

text \<open>
  Claim C3, as the code has it. A hyperlink is attributed to the first platform of the table
  whose pattern its href matches, and its href is resolved against the base URL by
  \<open>urljoin\<close> unless it starts with http:// or https://. When the strategy returns, the result
  maps a platform to a URL exactly when some hyperlink is attributed to it, and the URL is
  the resolved href of the last such hyperlink in document order (a later match overwrites
  an earlier one); so there is at most one URL per platform, and every key is a platform of
  the table. The strategy raises only what \<open>urljoin\<close> raises on the href of an attributed
  hyperlink, and it returns when \<open>urljoin\<close> returns on all of them.
\<close>

theorem social_links_last_match:
  "(extract_field urljoin soup F_SOCIAL base_url = Inr v \<longrightarrow>
      (\<exists>d. v = VDict d
         \<and> distinct (map fst d)
         \<and> set (map fst d) \<subseteq> set (map fst social_patterns)
         \<and> (\<forall>p. if filter (\<lambda>h. platform_of h = Some p) (link_hrefs soup) = []
                  then map_of d p = None
                  else (\<exists>url. resolve urljoin base_url
                                 (last (filter (\<lambda>h. platform_of h = Some p) (link_hrefs soup)))
                               = Inr url
                             \<and> map_of d p = Some url))))
   \<and> (extract_field urljoin soup F_SOCIAL base_url = Inl e \<longrightarrow>
        (\<exists>href\<in>set (link_hrefs soup).
           platform_of href \<noteq> None \<and> resolve urljoin base_url href = Inl e))
   \<and> ((\<forall>href\<in>set (link_hrefs soup).
          platform_of href \<noteq> None \<longrightarrow> (\<exists>url. resolve urljoin base_url href = Inr url))
        \<longrightarrow> (\<exists>d. extract_field urljoin soup F_SOCIAL base_url = Inr (VDict d)))"
proof (intro conjI impI)
  assume a: "extract_field urljoin soup F_SOCIAL base_url = Inr v"
  then obtain d where d: "extract_social urljoin soup base_url = Inr d" and v: "v = VDict d"
    by (auto simp: dispatch_social split: sum.splits)
  from d have run: "social_loop urljoin base_url (find_all soup [asc ''a''] [(asc ''href'', MTrue)]) []
                      = Inr d"
    by (simp add: extract_social_def)
  note r = social_loop_returns [OF links_have_href run]
  have 1: "distinct (map fst d)" using r [THEN conjunct1] by simp
  have 2: "set (map fst d) \<subseteq> set (map fst social_patterns)"
    using r [THEN conjunct2, THEN conjunct1] by simp
  have 3: "\<forall>p. if filter (\<lambda>h. platform_of h = Some p) (link_hrefs soup) = []
                  then map_of d p = None
                  else (\<exists>url. resolve urljoin base_url
                                 (last (filter (\<lambda>h. platform_of h = Some p) (link_hrefs soup)))
                               = Inr url
                             \<and> map_of d p = Some url)"
    using r [THEN conjunct2, THEN conjunct2] by (simp add: link_hrefs_def)
  from v 1 2 3
  show "\<exists>d. v = VDict d
         \<and> distinct (map fst d)
         \<and> set (map fst d) \<subseteq> set (map fst social_patterns)
         \<and> (\<forall>p. if filter (\<lambda>h. platform_of h = Some p) (link_hrefs soup) = []
                  then map_of d p = None
                  else (\<exists>url. resolve urljoin base_url
                                 (last (filter (\<lambda>h. platform_of h = Some p) (link_hrefs soup)))
                               = Inr url
                             \<and> map_of d p = Some url))"
    by blast
next
  assume "extract_field urljoin soup F_SOCIAL base_url = Inl e"
  then have "extract_social urljoin soup base_url = Inl e"
    by (auto simp: dispatch_social split: sum.splits)
  then show "\<exists>href\<in>set (link_hrefs soup).
           platform_of href \<noteq> None \<and> resolve urljoin base_url href = Inl e"
    by (rule extract_social_raises)
next
  assume a: "\<forall>href\<in>set (link_hrefs soup).
          platform_of href \<noteq> None \<longrightarrow> (\<exists>url. resolve urljoin base_url href = Inr url)"
  show "\<exists>d. extract_field urljoin soup F_SOCIAL base_url = Inr (VDict d)"
  proof (cases "extract_social urljoin soup base_url")
    case (Inl err)
    from extract_social_raises [OF this] a show ?thesis by fastforce
  next
    case (Inr d)
    then show ?thesis by (simp add: dispatch_social)
  qed
qed

theorem social_links_last_match_witness:
  "\<exists>d. extract_field urljoin_sample doc_two_facebook F_SOCIAL (asc ''https://x.co'') = Inr (VDict d)
     \<and> distinct (map fst d)
     \<and> map_of d (asc ''facebook'') = Some (asc ''https://facebook.com/second'')
     \<and> map_of d (asc ''twitter'') = Some (asc ''https://x.co/x.com/me'')
     \<and> map_of d (asc ''youtube'') = None"
proof -
  note t = social_links_last_match [of urljoin_sample doc_two_facebook "asc ''https://x.co''"]
  have "list_all (\<lambda>href. platform_of href \<noteq> None
                    \<longrightarrow> (\<exists>url. resolve urljoin_sample (asc ''https://x.co'') href = Inr url))
          (link_hrefs doc_two_facebook)"
  proof -
    have l: "link_hrefs doc_two_facebook
       = [asc ''https://facebook.com/first'', asc ''/x.com/me'', asc ''https://facebook.com/second'']"
      by code_simp
    have "resolve urljoin_sample (asc ''https://x.co'') (asc ''https://facebook.com/first'')
            = Inr (asc ''https://facebook.com/first'')"
         "resolve urljoin_sample (asc ''https://x.co'') (asc ''/x.com/me'')
            = Inr (asc ''https://x.co/x.com/me'')"
         "resolve urljoin_sample (asc ''https://x.co'') (asc ''https://facebook.com/second'')
            = Inr (asc ''https://facebook.com/second'')"
      by code_simp+
    then show ?thesis unfolding l by simp
  qed
  then obtain d0 where r: "extract_field urljoin_sample doc_two_facebook F_SOCIAL (asc ''https://x.co'')
                             = Inr (VDict d0)"
    using t unfolding list_all_iff by blast
  with t obtain d where d: "VDict d0 = VDict d" "distinct (map fst d)"
    "\<forall>p. if filter (\<lambda>h. platform_of h = Some p) (link_hrefs doc_two_facebook) = []
          then map_of d p = None
          else (\<exists>url. resolve urljoin_sample (asc ''https://x.co'')
                         (last (filter (\<lambda>h. platform_of h = Some p) (link_hrefs doc_two_facebook)))
                       = Inr url
                     \<and> map_of d p = Some url)"
    by blast
  have f: "filter (\<lambda>h. platform_of h = Some (asc ''facebook'')) (link_hrefs doc_two_facebook) \<noteq> []
           \<and> resolve urljoin_sample (asc ''https://x.co'')
                (last (filter (\<lambda>h. platform_of h = Some (asc ''facebook'')) (link_hrefs doc_two_facebook)))
              = Inr (asc ''https://facebook.com/second'')"
    by code_simp
  have w: "filter (\<lambda>h. platform_of h = Some (asc ''twitter'')) (link_hrefs doc_two_facebook) \<noteq> []
           \<and> resolve urljoin_sample (asc ''https://x.co'')
                (last (filter (\<lambda>h. platform_of h = Some (asc ''twitter'')) (link_hrefs doc_two_facebook)))
              = Inr (asc ''https://x.co/x.com/me'')"
    by code_simp
  have y: "filter (\<lambda>h. platform_of h = Some (asc ''youtube'')) (link_hrefs doc_two_facebook) = []"
    by code_simp
  have "map_of d (asc ''facebook'') = Some (asc ''https://facebook.com/second'')"
    using d(3) [rule_format, of "asc ''facebook''"] f by auto
  moreover have "map_of d (asc ''twitter'') = Some (asc ''https://x.co/x.com/me'')"
    using d(3) [rule_format, of "asc ''twitter''"] w by auto
  moreover have "map_of d (asc ''youtube'') = None"
    using d(3) [rule_format, of "asc ''youtube''"] y by auto
  ultimately show ?thesis using r d(1,2) by auto
qed

text \<open>
  The claim as stated fails: of two Facebook links the second is kept, not the first.
\<close>

theorem social_links_first_match_lost:
  "extract_field urljoin_sample doc_two_facebook F_SOCIAL (asc ''https://x.co'')
     = Inr (VDict [(asc ''facebook'', asc ''https://facebook.com/second''),
                   (asc ''twitter'', asc ''https://x.co/x.com/me'')])
   \<and> link_hrefs doc_two_facebook
       = [asc ''https://facebook.com/first'', asc ''/x.com/me'', asc ''https://facebook.com/second'']
   \<and> platform_of (asc ''https://facebook.com/first'') = Some (asc ''facebook'')"
proof -
  have "extract_social urljoin_sample doc_two_facebook (asc ''https://x.co'')
     = Inr [(asc ''facebook'', asc ''https://facebook.com/second''),
            (asc ''twitter'', asc ''https://x.co/x.com/me'')]"
    by code_simp
  moreover have "link_hrefs doc_two_facebook
       = [asc ''https://facebook.com/first'', asc ''/x.com/me'', asc ''https://facebook.com/second'']"
    by code_simp
  moreover have "platform_of (asc ''https://facebook.com/first'') = Some (asc ''facebook'')"
    by code_simp
  ultimately show ?thesis by (simp add: dispatch_social)
qed

section \<open>Properties of the email values\<close>

lemma split_acc_first:
  "split_acc [c] cur s = x # xs \<Longrightarrow> x = rev cur @ takeWhile (\<lambda>d. d \<noteq> c) s"
proof (induction s arbitrary: cur)
  case Nil
  then show ?case by simp
next
  case (Cons a s)
  show ?case
  proof (cases "a = c")
    case True
    then show ?thesis using Cons.prems by (simp add: startswith_def)
  next
    case False
    then have "split_acc [c] (a # cur) s = x # xs" using Cons.prems by (simp add: startswith_def)
    from Cons.IH [OF this] False show ?thesis by simp
  qed
qed

lemma split_first: "split s [c] = x # xs \<Longrightarrow> x = takeWhile (\<lambda>d. d \<noteq> c) s"
  using split_acc_first [of c "[]" s x xs] by (simp add: split_def)

lemma mailto_links_loop_result:
  "mailto_links_loop links = Inr (Some e) \<Longrightarrow>
     \<exists>link\<in>set links. \<exists>href. get link (asc ''href'') = Some href
        \<and> e = takeWhile (\<lambda>c. c \<noteq> 63) (replace href (asc ''mailto:'') [])
        \<and> is_valid_email e"
proof (induction links)
  case Nil
  then show ?case by simp
next
  case (Cons link links)
  then obtain href where h: "get link (asc ''href'') = Some href"
    by (auto simp: getitem_def split: option.splits)
  then have gi: "getitem link (asc ''href'') = Inr href" by (simp add: getitem_def)
  obtain x xs where sp: "split (replace href (asc ''mailto:'') []) (asc ''?'') = x # xs"
    using Cons.prems by (auto simp: gi split: list.splits)
  have q: "asc ''?'' = [63]" by (simp add: asc_def)
  have x: "x = takeWhile (\<lambda>c. c \<noteq> 63) (replace href (asc ''mailto:'') [])"
    using sp split_first [of "replace href (asc ''mailto:'') []" 63 x xs] by (simp add: q)
  show ?case
  proof (cases "is_valid_email x")
    case True
    then have "e = x" using Cons.prems by (simp add: gi sp)
    then show ?thesis using h x True by auto
  next
    case False
    then have "mailto_links_loop links = Inr (Some e)" using Cons.prems by (simp add: gi sp)
    then show ?thesis using Cons.IH by auto
  qed
qed

lemma extract_email_valid: "extract_email soup = Inr e \<Longrightarrow> e = [] \<or> is_valid_email e"
proof -
  assume a: "extract_email soup = Inr e"
  let ?links = "find_all soup [asc ''a''] [(asc ''href'', MRe (Seq Bol (lit ''mailto:'')))]"
  show ?thesis
  proof (cases "mailto_links_loop ?links")
    case (Inl err)
    then show ?thesis using a by (simp add: extract_email_def)
  next
    case (Inr r)
    show ?thesis
    proof (cases r)
      case None
      let ?valid = "filter is_valid_email (findall email_pattern (get_text soup))"
      show ?thesis
      proof (cases ?valid)
        case Nil
        then show ?thesis using a Inr None by (simp add: extract_email_def)
      next
        case (Cons v vs)
        then have "v \<in> set ?valid" by simp
        then have "is_valid_email v" by simp
        moreover have "e = v" using a Inr None Cons by (simp add: extract_email_def)
        ultimately show ?thesis by simp
      qed
    next
      case (Some m)
      then have "e = m" using a Inr by (simp add: extract_email_def)
      then show ?thesis using mailto_links_loop_result [of ?links e] Inr Some by auto
    qed
  qed
qed

text \<open>
  Claim C10, as the code has it. In the team strategy the email of a member is the href of
  the first mailto link under the person element with every occurrence of \<open>mailto:\<close>
  removed (\<open>str.replace\<close>): nothing is cut at \<open>?\<close> and nothing is validated, and a named
  member with a non-empty email carries it under the email key. The email strategy returns
  the empty string or a value that passes \<open>is_valid_email\<close>; a value taken from a mailto link
  is the href with every \<open>mailto:\<close> removed, cut at the first \<open>?\<close>.
\<close>

theorem staff_email_unvalidated:
  "(bs_find person [asc ''a''] [(asc ''href'', MRe (Seq Bol (lit ''mailto:'')))] = Some link
      \<and> get link (asc ''href'') = Some href
      \<longrightarrow> person_email person = Inr (replace href (asc ''mailto:'') [])
          \<and> (person_name person \<noteq> [] \<longrightarrow>
                persons_loop [person] team
                  = Inr (team @ [person_info (person_name person) (person_role person)
                                   (replace href (asc ''mailto:'') [])])))
   \<and> (email \<noteq> [] \<longrightarrow> map_of (person_info name role email) F_EMAIL = Some email)
   \<and> (extract_email soup = Inr e \<longrightarrow> e = [] \<or> is_valid_email e)
   \<and> (mailto_links_loop links = Inr (Some e') \<longrightarrow>
         (\<exists>l\<in>set links. \<exists>h. get l (asc ''href'') = Some h
            \<and> e' = takeWhile (\<lambda>c. c \<noteq> 63) (replace h (asc ''mailto:'') [])
            \<and> is_valid_email e'))"
proof (intro conjI impI)
  assume a: "bs_find person [asc ''a''] [(asc ''href'', MRe (Seq Bol (lit ''mailto:'')))] = Some link
      \<and> get link (asc ''href'') = Some href"
  then show pe: "person_email person = Inr (replace href (asc ''mailto:'') [])"
    by (simp add: person_email_def getitem_def)
  assume "person_name person \<noteq> []"
  then show "persons_loop [person] team
                  = Inr (team @ [person_info (person_name person) (person_role person)
                                   (replace href (asc ''mailto:'') [])])"
    using pe by simp
next
  assume "email \<noteq> []"
  then show "map_of (person_info name role email) F_EMAIL = Some email"
    by (simp add: person_info_def K_NAME_def K_ROLE_def F_EMAIL_def)
next
  assume "extract_email soup = Inr e"
  then show "e = [] \<or> is_valid_email e" by (rule extract_email_valid)
next
  assume "mailto_links_loop links = Inr (Some e')"
  then show "\<exists>l\<in>set links. \<exists>h. get l (asc ''href'') = Some h
            \<and> e' = takeWhile (\<lambda>c. c \<noteq> 63) (replace h (asc ''mailto:'') [])
            \<and> is_valid_email e'"
    by (rule mailto_links_loop_result)
qed

theorem staff_email_unvalidated_witness:
  "person_email person_card = Inr (asc ''dana@x.co?subject=Hi'')
   \<and> persons_loop [person_card] []
       = Inr [[(K_NAME, asc ''Dana''), (F_EMAIL, asc ''dana@x.co?subject=Hi'')]]
   \<and> \<not> is_valid_email (asc ''dana@x.co?subject=Hi'')
   \<and> extract_email doc_mailto = Inr (asc ''info@x.co'')
   \<and> is_valid_email (asc ''info@x.co'')"
proof -
  have h: "bs_find person_card [asc ''a''] [(asc ''href'', MRe (Seq Bol (lit ''mailto:'')))]
             = Some (Element (asc ''a'') [(asc ''href'', asc ''mailto:dana@x.co?subject=Hi'')] [])
           \<and> get (Element (asc ''a'') [(asc ''href'', asc ''mailto:dana@x.co?subject=Hi'')] [])
                 (asc ''href'') = Some (asc ''mailto:dana@x.co?subject=Hi'')"
    by code_simp
  have n: "person_name person_card \<noteq> []" by code_simp
  note t = staff_email_unvalidated
    [where person = person_card and href = "asc ''mailto:dana@x.co?subject=Hi''" and team = "[]"
       and link = "Element (asc ''a'') [(asc ''href'', asc ''mailto:dana@x.co?subject=Hi'')] []"
       and soup = doc_mailto and e = "asc ''info@x.co''"]
  have r: "replace (asc ''mailto:dana@x.co?subject=Hi'') (asc ''mailto:'') [] = asc ''dana@x.co?subject=Hi''"
    by code_simp
  have pi: "person_info (person_name person_card) (person_role person_card) (asc ''dana@x.co?subject=Hi'')
      = [(K_NAME, asc ''Dana''), (F_EMAIL, asc ''dana@x.co?subject=Hi'')]"
    by code_simp
  have 1: "person_email person_card = Inr (asc ''dana@x.co?subject=Hi'')"
    using t h r by simp
  have 2: "persons_loop [person_card] []
       = Inr [[(K_NAME, asc ''Dana''), (F_EMAIL, asc ''dana@x.co?subject=Hi'')]]"
    using t h n r pi by simp
  have 3: "\<not> is_valid_email (asc ''dana@x.co?subject=Hi'')" by code_simp
  have 4: "extract_email doc_mailto = Inr (asc ''info@x.co'')" by code_simp
  have "asc ''info@x.co'' \<noteq> []" by (simp add: asc_def)
  then have 5: "is_valid_email (asc ''info@x.co'')" using t 4 by blast
  show ?thesis using 1 2 3 4 5 by blast
qed

text \<open>
  The claim as stated fails where \<open>mailto:\<close> occurs again inside the href: more than the
  prefix is removed.
\<close>

theorem staff_email_inner_mailto_removed:
  "extract_team doc_team_nested_mailto
     = Inr [[(K_NAME, asc ''Dana''), (F_EMAIL, asc ''d@x.co?cc=e@x.co'')]]
   \<and> drop (length (asc ''mailto:'')) (asc ''mailto:d@x.co?cc=mailto:e@x.co'')
       = asc ''d@x.co?cc=mailto:e@x.co''
   \<and> asc ''d@x.co?cc=e@x.co'' \<noteq> asc ''d@x.co?cc=mailto:e@x.co''"
  by code_simp

section \<open>Properties of the orchestrator\<close>




section \<open>Properties of the extraction result\<close>

lemmas field_names =
  F_NAME_def F_PHONE_def F_EMAIL_def F_EMAIL_APOSTROPHE_def F_EMAIL_GERSHAYIM_def F_ADDRESS_def
  F_HOURS_ACTIVITY_def F_HOURS_OPENING_def F_HOURS_RECEPTION_def F_TEAM_def F_DOCTORS_def
  F_SOCIAL_def F_PRACTICE_AREAS_def F_ACTIVITY_FIELD_def F_SPECIALTY_def F_LOGO_def F_COLORS_def

lemma extract_field_unknown:
  "name \<notin> set vocabulary \<Longrightarrow> extract_field urljoin soup name base_url = Inr (VStr [])"
  by (simp add: vocabulary_def extract_field_def)

lemma dispatch:
  "extract_field urljoin soup F_PHONE base_url = str_result (extract_phone soup)"
  "extract_field urljoin soup F_EMAIL base_url = str_result (extract_email soup)"
  "extract_field urljoin soup F_EMAIL_APOSTROPHE base_url = str_result (extract_email soup)"
  "extract_field urljoin soup F_EMAIL_GERSHAYIM base_url = str_result (extract_email soup)"
  "extract_field urljoin soup F_ADDRESS base_url = Inr (VStr (extract_address soup))"
  "extract_field urljoin soup F_HOURS_ACTIVITY base_url = Inr (VStr (extract_hours soup))"
  "extract_field urljoin soup F_HOURS_OPENING base_url = Inr (VStr (extract_hours soup))"
  "extract_field urljoin soup F_HOURS_RECEPTION base_url = Inr (VStr (extract_hours soup))"
  "extract_field urljoin soup F_TEAM base_url =
     (case extract_team soup of Inl e \<Rightarrow> Inl e | Inr team \<Rightarrow> Inr (VTeam team))"
  "extract_field urljoin soup F_DOCTORS base_url =
     (case extract_team soup of Inl e \<Rightarrow> Inl e | Inr team \<Rightarrow> Inr (VTeam team))"
  "extract_field urljoin soup F_PRACTICE_AREAS base_url = Inr (extract_category soup)"
  "extract_field urljoin soup F_ACTIVITY_FIELD base_url = Inr (extract_category soup)"
  "extract_field urljoin soup F_SPECIALTY base_url = Inr (extract_category soup)"
  by (simp_all add: extract_field_def field_names)

lemma vocabulary_cases:
  obtains "name = F_NAME" | "name = F_PHONE" | "name = F_EMAIL" | "name = F_EMAIL_APOSTROPHE"
    | "name = F_EMAIL_GERSHAYIM" | "name = F_ADDRESS" | "name = F_HOURS_ACTIVITY"
    | "name = F_HOURS_OPENING" | "name = F_HOURS_RECEPTION" | "name = F_TEAM" | "name = F_DOCTORS"
    | "name = F_SOCIAL" | "name = F_PRACTICE_AREAS" | "name = F_ACTIVITY_FIELD"
    | "name = F_SPECIALTY" | "name \<notin> set vocabulary"
  unfolding vocabulary_def by auto

lemma extract_field_shape:
  assumes "extract_field urljoin soup name base_url = Inr v"
  shows "(name = F_TEAM \<or> name = F_DOCTORS \<longrightarrow> (\<exists>t. v = VTeam t))
       \<and> (name = F_SOCIAL \<longrightarrow> (\<exists>d. v = VDict d))
       \<and> (name \<notin> set [F_TEAM, F_DOCTORS, F_SOCIAL, F_PRACTICE_AREAS, F_ACTIVITY_FIELD, F_SPECIALTY]
            \<longrightarrow> (\<exists>s. v = VStr s))"
proof (cases name rule: vocabulary_cases)
  case 1
  with assms have "\<exists>s. v = VStr s" by (auto simp: dispatch_name)
  with 1 show ?thesis by (simp add: field_names)
next
  case 2
  with assms have "\<exists>s. v = VStr s" by (auto simp: dispatch str_result_def split: sum.splits)
  with 2 show ?thesis by (simp add: field_names)
next
  case 3
  with assms have "\<exists>s. v = VStr s" by (auto simp: dispatch str_result_def split: sum.splits)
  with 3 show ?thesis by (simp add: field_names)
next
  case 4
  with assms have "\<exists>s. v = VStr s" by (auto simp: dispatch str_result_def split: sum.splits)
  with 4 show ?thesis by (simp add: field_names)
next
  case 5
  with assms have "\<exists>s. v = VStr s" by (auto simp: dispatch str_result_def split: sum.splits)
  with 5 show ?thesis by (simp add: field_names)
next
  case 6
  with assms have "\<exists>s. v = VStr s" by (auto simp: dispatch)
  with 6 show ?thesis by (simp add: field_names)
next
  case 7
  with assms have "\<exists>s. v = VStr s" by (auto simp: dispatch)
  with 7 show ?thesis by (simp add: field_names)
next
  case 8
  with assms have "\<exists>s. v = VStr s" by (auto simp: dispatch)
  with 8 show ?thesis by (simp add: field_names)
next
  case 9
  with assms have "\<exists>s. v = VStr s" by (auto simp: dispatch)
  with 9 show ?thesis by (simp add: field_names)
next
  case 10
  with assms have "\<exists>t. v = VTeam t" by (auto simp: dispatch split: sum.splits)
  with 10 show ?thesis by (simp add: field_names)
next
  case 11
  with assms have "\<exists>t. v = VTeam t" by (auto simp: dispatch split: sum.splits)
  with 11 show ?thesis by (simp add: field_names)
next
  case 12
  with assms have "\<exists>d. v = VDict d" by (auto simp: dispatch_social split: sum.splits)
  with 12 show ?thesis by (simp add: field_names)
next
  case 13
  then show ?thesis by (simp add: field_names)
next
  case 14
  then show ?thesis by (simp add: field_names)
next
  case 15
  then show ?thesis by (simp add: field_names)
next
  case 16
  with assms have "v = VStr []" by (simp add: extract_field_unknown)
  with 16 show ?thesis by (simp add: vocabulary_def)
qed

lemma extract_field_typed:
  assumes "extract_field urljoin soup name base_url = Inr v"
      and "map_of default_fields name = Some t"
      and "name \<notin> set [F_PRACTICE_AREAS, F_ACTIVITY_FIELD, F_SPECIALTY, F_COLORS]"
  shows "has_type t v"
proof -
  note s = extract_field_shape [OF assms(1)]
  from assms(2) have "(name, t) \<in> set default_fields" by (rule map_of_SomeD)
  then consider "name = F_NAME \<and> t = T_string" | "name = F_PHONE \<and> t = T_string"
    | "name = F_EMAIL \<and> t = T_email" | "name = F_LOGO \<and> t = T_url"
    | "name = F_TEAM \<and> t = T_array" | "name = F_ADDRESS \<and> t = T_string"
    | "name = F_HOURS_ACTIVITY \<and> t = T_string" | "name = F_HOURS_RECEPTION \<and> t = T_string"
    | "name = F_HOURS_OPENING \<and> t = T_string" | "name = F_SOCIAL \<and> t = T_object"
    | "name = F_DOCTORS \<and> t = T_array"
    using assms(3) by (auto simp: default_fields_def)
  then show ?thesis
  proof cases
    case 1 then show ?thesis using s by (auto simp: field_names)
  next
    case 2 then show ?thesis using s by (auto simp: field_names)
  next
    case 3 then show ?thesis using s by (auto simp: field_names)
  next
    case 4 then show ?thesis using s by (auto simp: field_names)
  next
    case 5 then show ?thesis using s by auto
  next
    case 6 then show ?thesis using s by (auto simp: field_names)
  next
    case 7 then show ?thesis using s by (auto simp: field_names)
  next
    case 8 then show ?thesis using s by (auto simp: field_names)
  next
    case 9 then show ?thesis using s by (auto simp: field_names)
  next
    case 10 then show ?thesis using s by auto
  next
    case 11 then show ?thesis using s by auto
  qed
qed

lemma dict_set_new_key: "k \<notin> fst ` set d \<Longrightarrow> map fst (dict_set d k v) = map fst d @ [k]"
  by (induction d) auto

lemma fields_loop_result:
  assumes "fields_loop urljoin soup url names acc = Inr extracted"
      and "distinct (map fst acc @ names)"
  shows "map fst extracted = map fst acc @ names
       \<and> (\<forall>k. k \<notin> set names \<longrightarrow> map_of extracted k = map_of acc k)
       \<and> (\<forall>name\<in>set names. \<exists>v. map_of extracted name = Some v
              \<and> extract_field urljoin soup name url = Inr v)"
  using assms
proof (induction names arbitrary: acc)
  case Nil
  then show ?case by simp
next
  case (Cons name names)
  then obtain v where v: "extract_field urljoin soup name url = Inr v"
    by (auto split: sum.splits)
  let ?acc = "dict_set acc name v"
  have run: "fields_loop urljoin soup url names ?acc = Inr extracted"
    using Cons.prems(1) v by simp
  have new: "name \<notin> fst ` set acc" using Cons.prems(2) by auto
  have keys: "map fst ?acc = map fst acc @ [name]" using new by (rule dict_set_new_key)
  have dist: "distinct (map fst ?acc @ names)" using Cons.prems(2) keys by auto
  note ih = Cons.IH [OF run dist]
  have notin: "name \<notin> set names" using Cons.prems(2) by auto
  have "map fst extracted = map fst acc @ name # names" using ih keys by simp
  moreover have "\<forall>k. k \<notin> set (name # names) \<longrightarrow> map_of extracted k = map_of acc k"
    using ih by (simp add: map_of_dict_set)
  moreover have "map_of extracted name = Some v"
    using ih notin by (simp add: map_of_dict_set)
  ultimately show ?case using ih v by auto
qed

text \<open>
  Claim C1, as the code has it. A successful scrape of a profile whose field names are
  distinct returns a mapping whose keys are exactly the profile's field names, in their
  order, each mapped to a value (the model has no null). The value has the type that the
  field catalog declares, except for the three category fields and the dominant-colours
  field, where the code does not follow the catalog; a field name outside the extractor's
  vocabulary is mapped to the empty string.
\<close>

theorem scrape_result_fields:
  assumes "scrape_website requests_get parse urljoin url prof want_colors want_logo want_fonts
             = Inr (extracted, design)"
      and "distinct (profile_fields prof)"
  shows "map fst extracted = profile_fields prof
       \<and> (\<forall>name\<in>set (profile_fields prof). \<exists>v. map_of extracted name = Some v
             \<and> (\<forall>t. map_of default_fields name = Some t
                      \<and> name \<notin> set [F_PRACTICE_AREAS, F_ACTIVITY_FIELD, F_SPECIALTY, F_COLORS]
                    \<longrightarrow> has_type t v)
             \<and> (name \<notin> set vocabulary \<longrightarrow> v = VStr []))"
proof -
  from assms(1) obtain resp where resp: "requests_get url = Inr resp"
    by (auto simp: scrape_website_def split: sum.splits)
  let ?soup = "parse (body resp)"
  from assms(1) resp have run: "fields_loop urljoin ?soup url (profile_fields prof) [] = Inr extracted"
    by (auto simp: scrape_website_def Let_def split: option.splits sum.splits if_splits)
  from assms(2) have "distinct (map fst ([] :: (pystr \<times> pyvalue) list) @ profile_fields prof)"
    by simp
  note r = fields_loop_result [OF run this]
  have "\<forall>name\<in>set (profile_fields prof). \<exists>v. map_of extracted name = Some v
             \<and> (\<forall>t. map_of default_fields name = Some t
                      \<and> name \<notin> set [F_PRACTICE_AREAS, F_ACTIVITY_FIELD, F_SPECIALTY, F_COLORS]
                    \<longrightarrow> has_type t v)
             \<and> (name \<notin> set vocabulary \<longrightarrow> v = VStr [])"
  proof
    fix name assume "name \<in> set (profile_fields prof)"
    with r obtain v where v: "map_of extracted name = Some v"
      "extract_field urljoin ?soup name url = Inr v" by blast
    have "\<forall>t. map_of default_fields name = Some t
                      \<and> name \<notin> set [F_PRACTICE_AREAS, F_ACTIVITY_FIELD, F_SPECIALTY, F_COLORS]
                    \<longrightarrow> has_type t v"
      using extract_field_typed [OF v(2)] by blast
    moreover have "name \<notin> set vocabulary \<longrightarrow> v = VStr []"
      using extract_field_unknown [of name urljoin ?soup url] v(2) by auto
    ultimately show "\<exists>v. map_of extracted name = Some v
             \<and> (\<forall>t. map_of default_fields name = Some t
                      \<and> name \<notin> set [F_PRACTICE_AREAS, F_ACTIVITY_FIELD, F_SPECIALTY, F_COLORS]
                    \<longrightarrow> has_type t v)
             \<and> (name \<notin> set vocabulary \<longrightarrow> v = VStr [])"
      using v(1) by blast
  qed
  with r show ?thesis by simp
qed

lemma scrape_heading:
  "scrape_website (\<lambda>u. Inr \<lparr>status_code = 200, body = asc ''<h1>Acme Law Office</h1>''\<rparr>)
       (\<lambda>html. doc_heading) urljoin_sample (asc ''https://x.co'')
       (custom_profile [F_NAME, F_SOCIAL, F_LOGO]) False False True
     = Inr ([(F_NAME, VStr (asc ''Acme Law Office'')), (F_SOCIAL, VDict []), (F_LOGO, VStr [])],
            [(asc ''fonts'', [])])"
  by code_simp

theorem scrape_result_fields_witness:
  "scrape_website (\<lambda>u. Inr \<lparr>status_code = 200, body = asc ''<h1>Acme Law Office</h1>''\<rparr>)
       (\<lambda>html. doc_heading) urljoin_sample (asc ''https://x.co'')
       (custom_profile [F_NAME, F_SOCIAL, F_LOGO]) False False True
     = Inr ([(F_NAME, VStr (asc ''Acme Law Office'')), (F_SOCIAL, VDict []), (F_LOGO, VStr [])],
            [(asc ''fonts'', [])])
   \<and> distinct (profile_fields (custom_profile [F_NAME, F_SOCIAL, F_LOGO]))
   \<and> map fst [(F_NAME, VStr (asc ''Acme Law Office'')), (F_SOCIAL, VDict []), (F_LOGO, VStr [])]
       = profile_fields (custom_profile [F_NAME, F_SOCIAL, F_LOGO])
   \<and> list_all (\<lambda>name. \<exists>v. map_of [(F_NAME, VStr (asc ''Acme Law Office'')), (F_SOCIAL, VDict []),
                                      (F_LOGO, VStr [])] name = Some v
                    \<and> (\<forall>t. map_of default_fields name = Some t
                             \<and> name \<notin> set [F_PRACTICE_AREAS, F_ACTIVITY_FIELD, F_SPECIALTY, F_COLORS]
                           \<longrightarrow> has_type t v)
                    \<and> (name \<notin> set vocabulary \<longrightarrow> v = VStr []))
        (profile_fields (custom_profile [F_NAME, F_SOCIAL, F_LOGO]))"
proof -
  have d: "distinct (profile_fields (custom_profile [F_NAME, F_SOCIAL, F_LOGO]))"
    by (simp add: custom_profile_def field_names)
  from scrape_result_fields [OF scrape_heading d] scrape_heading d
  show ?thesis unfolding list_all_iff by blast
qed

text \<open>
  The claim as stated fails on the declared types: the dominant-colours field of the catalog
  is declared an array, no strategy extracts it, and the result maps it to the empty string.
\<close>

theorem colours_field_is_string:
  "scrape_website (\<lambda>u. Inr \<lparr>status_code = 200, body = []\<rparr>) (\<lambda>html. doc_empty) urljoin_sample
       (asc ''https://x.co'') (custom_profile [F_COLORS]) False False False
     = Inr ([(F_COLORS, VStr [])], [])
   \<and> map_of default_fields F_COLORS = Some T_array
   \<and> \<not> has_type T_array (VStr [])"
  by code_simp

section \<open>Totality of the field extractor\<close>

lemma tel_links_loop_total:
  "\<forall>l\<in>set links. get l (asc ''href'') \<noteq> None \<Longrightarrow> \<exists>r. tel_links_loop links = Inr r"
  by (induction links) (auto simp: getitem_def Let_def)

lemma split_acc_nonempty: "split_acc sep cur s \<noteq> []"
  by (induction sep cur s rule: split_acc.induct) auto

lemma mailto_links_loop_total:
  "\<forall>l\<in>set links. get l (asc ''href'') \<noteq> None \<Longrightarrow> \<exists>r. mailto_links_loop links = Inr r"
proof (induction links)
  case Nil
  then show ?case by simp
next
  case (Cons link links)
  then obtain href where "getitem link (asc ''href'') = Inr href" by (auto simp: getitem_def)
  moreover obtain x xs where "split (replace href (asc ''mailto:'') []) (asc ''?'') = x # xs"
    using split_acc_nonempty [of "asc ''?''" "[]" "replace href (asc ''mailto:'') []"]
    by (cases "split (replace href (asc ''mailto:'') []) (asc ''?'')") (auto simp: split_def)
  ultimately show ?case using Cons by auto
qed

lemma bs_find_has_attr:
  "bs_find tree names attrs = Some x \<Longrightarrow> (k, m) \<in> set attrs \<Longrightarrow> get x k \<noteq> None"
proof -
  assume a: "bs_find tree names attrs = Some x" and k: "(k, m) \<in> set attrs"
  then have "x \<in> set (find_all tree names attrs)"
    by (auto simp: bs_find_find_all split: list.splits)
  then show ?thesis using k by (rule find_all_has_attr)
qed

lemma person_email_total: "\<exists>e. person_email person = Inr e"
proof (cases "bs_find person [asc ''a''] [(asc ''href'', MRe (Seq Bol (lit ''mailto:'')))]")
  case None
  then show ?thesis by (simp add: person_email_def)
next
  case (Some x)
  then have "get x (asc ''href'') \<noteq> None" by (rule bs_find_has_attr) simp
  then show ?thesis using Some by (auto simp: person_email_def getitem_def)
qed

lemma persons_loop_total: "\<exists>t. persons_loop persons team = Inr t"
proof (induction persons arbitrary: team)
  case Nil
  then show ?case by simp
next
  case (Cons person persons)
  obtain e where "person_email person = Inr e" using person_email_total by blast
  then show ?case using Cons by auto
qed

lemma sections_loop_total: "\<exists>t. sections_loop secs team = Inr t"
proof (induction secs arbitrary: team)
  case Nil
  then show ?case by simp
next
  case (Cons sec secs)
  obtain t where "persons_loop (person_elems sec) team = Inr t"
    using persons_loop_total by blast
  then show ?case using Cons by auto
qed

lemma extract_phone_total: "\<exists>p. extract_phone soup = Inr p"
proof -
  have "\<forall>l\<in>set (find_all soup [asc ''a''] [(asc ''href'', MRe (Seq Bol (lit ''tel:'')))]).
          get l (asc ''href'') \<noteq> None"
    using find_all_has_attr by fastforce
  from tel_links_loop_total [OF this] show ?thesis
    by (auto simp: extract_phone_def split: option.splits)
qed

lemma extract_email_total: "\<exists>e. extract_email soup = Inr e"
proof -
  have "\<forall>l\<in>set (find_all soup [asc ''a''] [(asc ''href'', MRe (Seq Bol (lit ''mailto:'')))]).
          get l (asc ''href'') \<noteq> None"
    using find_all_has_attr by fastforce
  from mailto_links_loop_total [OF this] show ?thesis
    by (auto simp: extract_email_def split: option.splits list.splits)
qed

lemma extract_field_returns:
  assumes "name \<noteq> F_SOCIAL"
  shows "\<exists>v. extract_field urljoin soup name base_url = Inr v"
proof (cases name rule: vocabulary_cases)
  case 1 then show ?thesis by (simp add: dispatch_name)
next
  case 2 then show ?thesis using extract_phone_total [of soup] by (auto simp: dispatch str_result_def)
next
  case 3 then show ?thesis using extract_email_total [of soup] by (auto simp: dispatch str_result_def)
next
  case 4 then show ?thesis using extract_email_total [of soup] by (auto simp: dispatch str_result_def)
next
  case 5 then show ?thesis using extract_email_total [of soup] by (auto simp: dispatch str_result_def)
next
  case 6 then show ?thesis by (simp add: dispatch)
next
  case 7 then show ?thesis by (simp add: dispatch)
next
  case 8 then show ?thesis by (simp add: dispatch)
next
  case 9 then show ?thesis by (simp add: dispatch)
next
  case 10
  obtain t where "extract_team soup = Inr t"
    using sections_loop_total unfolding extract_team_def by blast
  with 10 show ?thesis by (simp add: dispatch)
next
  case 11
  obtain t where "extract_team soup = Inr t"
    using sections_loop_total unfolding extract_team_def by blast
  with 11 show ?thesis by (simp add: dispatch)
next
  case 12 then show ?thesis using assms by simp
next
  case 13 then show ?thesis by (simp add: dispatch)
next
  case 14 then show ?thesis by (simp add: dispatch)
next
  case 15 then show ?thesis by (simp add: dispatch)
next
  case 16 then show ?thesis by (simp add: extract_field_unknown)
qed

lemma extract_field_raises:
  assumes "extract_field urljoin soup name base_url = Inl e"
  shows "name = F_SOCIAL
       \<and> (\<exists>href\<in>set (link_hrefs soup).
             platform_of href \<noteq> None \<and> resolve urljoin base_url href = Inl e)"
proof -
  have n: "name = F_SOCIAL"
    using assms extract_field_returns [of name urljoin soup base_url] by fastforce
  with assms have "extract_social urljoin soup base_url = Inl e"
    by (auto simp: dispatch_social split: sum.splits)
  from extract_social_raises [OF this] n show ?thesis by simp
qed

lemma extract_field_resolved:
  assumes "\<forall>href\<in>set (link_hrefs soup).
             platform_of href \<noteq> None \<longrightarrow> (\<exists>url. resolve urljoin base_url href = Inr url)"
  shows "\<exists>v. extract_field urljoin soup name base_url = Inr v"
proof (cases "extract_field urljoin soup name base_url")
  case (Inl e)
  from extract_field_raises [OF this] assms show ?thesis by fastforce
next
  case (Inr v)
  then show ?thesis by simp
qed

lemma phone_in_text_none:
  "list_all (\<lambda>pattern. \<not> list_ex is_valid_phone (findall pattern txt)) patterns
     \<Longrightarrow> phone_in_text patterns txt = None"
proof (induction patterns)
  case Nil
  then show ?case by simp
next
  case (Cons pattern patterns)
  then have "filter is_valid_phone (findall pattern txt) = []"
    by (simp add: list_ex_iff filter_empty_conv)
  then show ?case using Cons by simp
qed

lemma tel_links_loop_none:
  "\<forall>l\<in>set links. get l (asc ''href'') \<noteq> None \<Longrightarrow>
   list_all (\<lambda>link. case get link (asc ''href'') of
                       None \<Rightarrow> True
                     | Some href \<Rightarrow> \<not> is_valid_phone (replace href (asc ''tel:'') [])) links
     \<Longrightarrow> tel_links_loop links = Inr None"
  by (induction links) (auto simp: getitem_def Let_def)

lemma mailto_links_loop_none:
  "\<forall>l\<in>set links. get l (asc ''href'') \<noteq> None \<Longrightarrow>
   list_all (\<lambda>link. case get link (asc ''href'') of
                       None \<Rightarrow> True
                     | Some href \<Rightarrow>
                         (case split (replace href (asc ''mailto:'') []) (asc ''?'') of
                            [] \<Rightarrow> True
                          | email # _ \<Rightarrow> \<not> is_valid_email email)) links
     \<Longrightarrow> mailto_links_loop links = Inr None"
proof (induction links)
  case Nil
  then show ?case by simp
next
  case (Cons link links)
  then obtain href where href: "get link (asc ''href'') = Some href" by auto
  obtain x xs where "split (replace href (asc ''mailto:'') []) (asc ''?'') = x # xs"
    using split_acc_nonempty [of "asc ''?''" "[]" "replace href (asc ''mailto:'') []"]
    by (cases "split (replace href (asc ''mailto:'') []) (asc ''?'')") (auto simp: split_def)
  then show ?case using Cons href by (simp add: getitem_def)
qed

lemma tables_loop_none: "list_all (\<lambda>table. table_hours table = None) tables \<Longrightarrow> tables_loop tables = []"
  by (induction tables) auto

lemma persons_loop_unnamed:
  "list_all (\<lambda>person. person_name person = []) persons \<Longrightarrow> persons_loop persons team = Inr team"
proof (induction persons)
  case Nil
  then show ?case by simp
next
  case (Cons person persons)
  obtain e where "person_email person = Inr e" using person_email_total by blast
  then show ?case using Cons by simp
qed

lemma sections_loop_unnamed:
  "list_all (\<lambda>sec. list_all (\<lambda>person. person_name person = []) (person_elems sec)) secs
     \<Longrightarrow> sections_loop secs [] = Inr []"
  by (induction secs) (auto simp: persons_loop_unnamed)

lemma social_loop_none:
  "\<forall>l\<in>set links. get l (asc ''href'') \<noteq> None \<Longrightarrow>
   list_all (\<lambda>href. platform_of href = None)
     (List.map_filter (\<lambda>link. get link (asc ''href'')) links)
     \<Longrightarrow> social_loop urljoin base_url links d = Inr d"
  by (induction links) (auto simp: getitem_def map_filter_simps)

lemma find_list_ex: "\<not> list_ex P xs \<Longrightarrow> List.find P xs = None"
  by (simp add: find_None_iff list_ex_iff)

lemma no_name_empty: "no_name soup \<Longrightarrow> extract_name soup = []"
proof -
  assume a: "no_name soup"
  then have "List.find h1_ok (find_all soup [asc ''h1''] []) = None"
    by (simp add: no_name_def find_list_ex)
  moreover from a have "(case bs_find soup [asc ''title''] [] of
                           Some t \<Rightarrow> strip (get_text t) | None \<Rightarrow> []) = []"
    by (simp add: no_name_def bs_find_find_all split: list.splits)
  ultimately show ?thesis using a
    by (auto simp: no_name_def extract_name_def Let_def bs_find_find_all
             split: list.splits option.splits)
qed

lemma no_valid_phone_empty: "no_valid_phone soup \<Longrightarrow> extract_phone soup = Inr []"
proof -
  assume a: "no_valid_phone soup"
  have "\<forall>l\<in>set (find_all soup [asc ''a''] [(asc ''href'', MRe (Seq Bol (lit ''tel:'')))]).
          get l (asc ''href'') \<noteq> None"
    using find_all_has_attr by fastforce
  from tel_links_loop_none [OF this] a
  have "tel_links_loop (find_all soup [asc ''a''] [(asc ''href'', MRe (Seq Bol (lit ''tel:'')))])
          = Inr None"
    by (simp add: no_valid_phone_def)
  moreover from a have "phone_in_text phone_patterns (get_text soup) = None"
    by (simp add: no_valid_phone_def phone_in_text_none)
  ultimately show ?thesis by (simp add: extract_phone_def)
qed

lemma no_valid_email_empty: "no_valid_email soup \<Longrightarrow> extract_email soup = Inr []"
proof -
  assume a: "no_valid_email soup"
  have "\<forall>l\<in>set (find_all soup [asc ''a''] [(asc ''href'', MRe (Seq Bol (lit ''mailto:'')))]).
          get l (asc ''href'') \<noteq> None"
    using find_all_has_attr by fastforce
  from mailto_links_loop_none [OF this] a
  have "mailto_links_loop (find_all soup [asc ''a''] [(asc ''href'', MRe (Seq Bol (lit ''mailto:'')))])
          = Inr None"
    by (simp add: no_valid_email_def)
  moreover from a have "filter is_valid_email (findall email_pattern (get_text soup)) = []"
    by (simp add: no_valid_email_def list_ex_iff filter_empty_conv)
  ultimately show ?thesis by (simp add: extract_email_def)
qed

lemma no_address_empty: "no_address soup \<Longrightarrow> extract_address soup = []"
proof -
  assume a: "no_address soup"
  then have "bs_find soup [asc ''span''] [(asc ''itemprop'', MStr (asc ''address''))] = None"
    by (simp add: no_address_def bs_find_find_all)
  moreover from a have "List.find city_text_ok
               (find_all soup [asc ''p'', asc ''div'', asc ''span'', asc ''address''] []) = None"
    by (simp add: no_address_def find_list_ex)
  moreover from a have "List.find address_len_ok
               (find_all soup [] [(asc ''class'', MRe rx_address)]
                @ find_all soup [] [(asc ''id'', MRe rx_address)]) = None"
    by (simp add: no_address_def find_list_ex)
  ultimately have "address_fallbacks soup = []"
    by (simp add: address_fallbacks_def)
  with a show ?thesis
    by (auto simp: no_address_def extract_address_def split: option.splits)
qed

lemma no_hours_empty: "no_hours soup \<Longrightarrow> extract_hours soup = []"
proof -
  assume a: "no_hours soup"
  then have "List.find hours_text_ok
               (find_all soup [] [(asc ''class'', MRe rx_hours)]
                @ find_all soup [] [(asc ''id'', MRe rx_hours)]) = None"
    by (simp add: no_hours_def find_list_ex)
  moreover from a have "tables_loop (find_all soup [asc ''table''] []) = []"
    by (simp add: no_hours_def tables_loop_none)
  ultimately show ?thesis by (simp add: extract_hours_def)
qed

lemma no_named_member_empty: "no_named_member soup \<Longrightarrow> extract_team soup = Inr []"
  by (simp add: no_named_member_def extract_team_def sections_loop_unnamed)

lemma no_social_link_empty: "no_social_link soup \<Longrightarrow> extract_social urljoin soup base_url = Inr []"
  using social_loop_none [OF links_have_href]
  by (simp add: no_social_link_def extract_social_def link_hrefs_def)

lemma no_category_empty: "no_category soup \<Longrightarrow> extract_category soup = VStr []"
  by (simp add: no_category_def extract_category_def category_fallbacks_def)

lemma finds_nothing_dispatch:
  "finds_nothing soup F_NAME = no_name soup"
  "finds_nothing soup F_PHONE = no_valid_phone soup"
  "finds_nothing soup F_EMAIL = no_valid_email soup"
  "finds_nothing soup F_EMAIL_APOSTROPHE = no_valid_email soup"
  "finds_nothing soup F_EMAIL_GERSHAYIM = no_valid_email soup"
  "finds_nothing soup F_ADDRESS = no_address soup"
  "finds_nothing soup F_HOURS_ACTIVITY = no_hours soup"
  "finds_nothing soup F_HOURS_OPENING = no_hours soup"
  "finds_nothing soup F_HOURS_RECEPTION = no_hours soup"
  "finds_nothing soup F_TEAM = no_named_member soup"
  "finds_nothing soup F_DOCTORS = no_named_member soup"
  "finds_nothing soup F_SOCIAL = no_social_link soup"
  "finds_nothing soup F_PRACTICE_AREAS = no_category soup"
  "finds_nothing soup F_ACTIVITY_FIELD = no_category soup"
  "finds_nothing soup F_SPECIALTY = no_category soup"
  by (simp_all add: finds_nothing_def field_names)

lemma empty_value_dispatch:
  "empty_value F_NAME = VStr []"
  "empty_value F_PHONE = VStr []"
  "empty_value F_EMAIL = VStr []"
  "empty_value F_EMAIL_APOSTROPHE = VStr []"
  "empty_value F_EMAIL_GERSHAYIM = VStr []"
  "empty_value F_ADDRESS = VStr []"
  "empty_value F_HOURS_ACTIVITY = VStr []"
  "empty_value F_HOURS_OPENING = VStr []"
  "empty_value F_HOURS_RECEPTION = VStr []"
  "empty_value F_TEAM = VTeam []"
  "empty_value F_DOCTORS = VTeam []"
  "empty_value F_SOCIAL = VDict []"
  "empty_value F_PRACTICE_AREAS = VStr []"
  "empty_value F_ACTIVITY_FIELD = VStr []"
  "empty_value F_SPECIALTY = VStr []"
  by (simp_all add: empty_value_def field_names)

lemma empty_value_unknown: "name \<notin> set vocabulary \<Longrightarrow> empty_value name = VStr []"
  by (auto simp: empty_value_def vocabulary_def)

lemma finds_nothing_empty:
  assumes "finds_nothing soup name"
  shows "extract_field urljoin soup name base_url = Inr (empty_value name)"
proof (cases name rule: vocabulary_cases)
  case 1
  with assms have "no_name soup" by (simp add: finds_nothing_dispatch)
  then have "extract_field urljoin soup F_NAME base_url = Inr (empty_value F_NAME)"
    by (simp add: dispatch_name no_name_empty empty_value_dispatch)
  with 1 show ?thesis by simp
next
  case 2
  with assms have "no_valid_phone soup" by (simp add: finds_nothing_dispatch)
  then have "extract_field urljoin soup F_PHONE base_url = Inr (empty_value F_PHONE)"
    by (simp add: dispatch str_result_def no_valid_phone_empty empty_value_dispatch)
  with 2 show ?thesis by simp
next
  case 3
  with assms have "no_valid_email soup" by (simp add: finds_nothing_dispatch)
  then have "extract_field urljoin soup F_EMAIL base_url = Inr (empty_value F_EMAIL)"
    by (simp add: dispatch str_result_def no_valid_email_empty empty_value_dispatch)
  with 3 show ?thesis by simp
next
  case 4
  with assms have "no_valid_email soup" by (simp add: finds_nothing_dispatch)
  then have "extract_field urljoin soup F_EMAIL_APOSTROPHE base_url
               = Inr (empty_value F_EMAIL_APOSTROPHE)"
    by (simp add: dispatch str_result_def no_valid_email_empty empty_value_dispatch)
  with 4 show ?thesis by simp
next
  case 5
  with assms have "no_valid_email soup" by (simp add: finds_nothing_dispatch)
  then have "extract_field urljoin soup F_EMAIL_GERSHAYIM base_url
               = Inr (empty_value F_EMAIL_GERSHAYIM)"
    by (simp add: dispatch str_result_def no_valid_email_empty empty_value_dispatch)
  with 5 show ?thesis by simp
next
  case 6
  with assms have "no_address soup" by (simp add: finds_nothing_dispatch)
  then have "extract_field urljoin soup F_ADDRESS base_url = Inr (empty_value F_ADDRESS)"
    by (simp add: dispatch no_address_empty empty_value_dispatch)
  with 6 show ?thesis by simp
next
  case 7
  with assms have "no_hours soup" by (simp add: finds_nothing_dispatch)
  then have "extract_field urljoin soup F_HOURS_ACTIVITY base_url
               = Inr (empty_value F_HOURS_ACTIVITY)"
    by (simp add: dispatch no_hours_empty empty_value_dispatch)
  with 7 show ?thesis by simp
next
  case 8
  with assms have "no_hours soup" by (simp add: finds_nothing_dispatch)
  then have "extract_field urljoin soup F_HOURS_OPENING base_url
               = Inr (empty_value F_HOURS_OPENING)"
    by (simp add: dispatch no_hours_empty empty_value_dispatch)
  with 8 show ?thesis by simp
next
  case 9
  with assms have "no_hours soup" by (simp add: finds_nothing_dispatch)
  then have "extract_field urljoin soup F_HOURS_RECEPTION base_url
               = Inr (empty_value F_HOURS_RECEPTION)"
    by (simp add: dispatch no_hours_empty empty_value_dispatch)
  with 9 show ?thesis by simp
next
  case 10
  with assms have "no_named_member soup" by (simp add: finds_nothing_dispatch)
  then have "extract_field urljoin soup F_TEAM base_url = Inr (empty_value F_TEAM)"
    by (simp add: dispatch no_named_member_empty empty_value_dispatch)
  with 10 show ?thesis by simp
next
  case 11
  with assms have "no_named_member soup" by (simp add: finds_nothing_dispatch)
  then have "extract_field urljoin soup F_DOCTORS base_url = Inr (empty_value F_DOCTORS)"
    by (simp add: dispatch no_named_member_empty empty_value_dispatch)
  with 11 show ?thesis by simp
next
  case 12
  with assms have "no_social_link soup" by (simp add: finds_nothing_dispatch)
  then have "extract_field urljoin soup F_SOCIAL base_url = Inr (empty_value F_SOCIAL)"
    by (simp add: dispatch_social no_social_link_empty empty_value_dispatch)
  with 12 show ?thesis by simp
next
  case 13
  with assms have "no_category soup" by (simp add: finds_nothing_dispatch)
  then have "extract_field urljoin soup F_PRACTICE_AREAS base_url
               = Inr (empty_value F_PRACTICE_AREAS)"
    by (simp add: dispatch no_category_empty empty_value_dispatch)
  with 13 show ?thesis by simp
next
  case 14
  with assms have "no_category soup" by (simp add: finds_nothing_dispatch)
  then have "extract_field urljoin soup F_ACTIVITY_FIELD base_url
               = Inr (empty_value F_ACTIVITY_FIELD)"
    by (simp add: dispatch no_category_empty empty_value_dispatch)
  with 14 show ?thesis by simp
next
  case 15
  with assms have "no_category soup" by (simp add: finds_nothing_dispatch)
  then have "extract_field urljoin soup F_SPECIALTY base_url = Inr (empty_value F_SPECIALTY)"
    by (simp add: dispatch no_category_empty empty_value_dispatch)
  with 15 show ?thesis by simp
next
  case 16
  then show ?thesis by (simp add: extract_field_unknown empty_value_unknown)
qed

lemma no_phone_in_empty_text: "phone_in_text phone_patterns [] = None"
  by code_simp

lemma no_email_in_empty_text: "findall email_pattern [] = []"
  by code_simp

lemma find_all_childless: "find_all (Element tag attrs []) names filters = []"
  by (simp add: find_all_def)

lemma bs_find_childless: "bs_find (Element tag attrs []) names filters = None"
  by (simp add: bs_find_def)

lemma extract_field_childless:
  "extract_field urljoin (Element tag attrs []) name base_url
     = Inr (if name = F_TEAM \<or> name = F_DOCTORS then VTeam []
            else if name = F_SOCIAL then VDict [] else VStr [])"
proof (cases name rule: vocabulary_cases)
  case 1
  have "extract_name (Element tag attrs []) = []"
    by (simp add: extract_name_def find_all_childless bs_find_childless)
  then have "extract_field urljoin (Element tag attrs []) F_NAME base_url = Inr (VStr [])"
    by (simp add: dispatch_name)
  with 1 show ?thesis by (simp add: field_names)
next
  case 2
  have "extract_phone (Element tag attrs []) = Inr []"
    by (simp add: extract_phone_def find_all_childless no_phone_in_empty_text)
  then have "extract_field urljoin (Element tag attrs []) F_PHONE base_url = Inr (VStr [])"
    by (simp add: dispatch str_result_def)
  with 2 show ?thesis by (simp add: field_names)
next
  case 3
  have "extract_email (Element tag attrs []) = Inr []"
    by (simp add: extract_email_def find_all_childless no_email_in_empty_text)
  then have "extract_field urljoin (Element tag attrs []) F_EMAIL base_url = Inr (VStr [])"
    by (simp add: dispatch str_result_def)
  with 3 show ?thesis by (simp add: field_names)
next
  case 4
  have "extract_email (Element tag attrs []) = Inr []"
    by (simp add: extract_email_def find_all_childless no_email_in_empty_text)
  then have "extract_field urljoin (Element tag attrs []) F_EMAIL_APOSTROPHE base_url = Inr (VStr [])"
    by (simp add: dispatch str_result_def)
  with 4 show ?thesis by (simp add: field_names)
next
  case 5
  have "extract_email (Element tag attrs []) = Inr []"
    by (simp add: extract_email_def find_all_childless no_email_in_empty_text)
  then have "extract_field urljoin (Element tag attrs []) F_EMAIL_GERSHAYIM base_url = Inr (VStr [])"
    by (simp add: dispatch str_result_def)
  with 5 show ?thesis by (simp add: field_names)
next
  case 6
  have "extract_address (Element tag attrs []) = []"
    by (simp add: extract_address_def address_fallbacks_def find_all_childless bs_find_childless)
  then have "extract_field urljoin (Element tag attrs []) F_ADDRESS base_url = Inr (VStr [])"
    by (simp add: dispatch)
  with 6 show ?thesis by (simp add: field_names)
next
  case 7
  have "extract_hours (Element tag attrs []) = []"
    by (simp add: extract_hours_def find_all_childless)
  then have "extract_field urljoin (Element tag attrs []) F_HOURS_ACTIVITY base_url = Inr (VStr [])"
    by (simp add: dispatch)
  with 7 show ?thesis by (simp add: field_names)
next
  case 8
  have "extract_hours (Element tag attrs []) = []"
    by (simp add: extract_hours_def find_all_childless)
  then have "extract_field urljoin (Element tag attrs []) F_HOURS_OPENING base_url = Inr (VStr [])"
    by (simp add: dispatch)
  with 8 show ?thesis by (simp add: field_names)
next
  case 9
  have "extract_hours (Element tag attrs []) = []"
    by (simp add: extract_hours_def find_all_childless)
  then have "extract_field urljoin (Element tag attrs []) F_HOURS_RECEPTION base_url = Inr (VStr [])"
    by (simp add: dispatch)
  with 9 show ?thesis by (simp add: field_names)
next
  case 10
  have "extract_field urljoin (Element tag attrs []) F_TEAM base_url = Inr (VTeam [])"
    by (simp add: dispatch extract_team_def find_all_childless)
  with 10 show ?thesis by simp
next
  case 11
  have "extract_field urljoin (Element tag attrs []) F_DOCTORS base_url = Inr (VTeam [])"
    by (simp add: dispatch extract_team_def find_all_childless)
  with 11 show ?thesis by simp
next
  case 12
  have "extract_field urljoin (Element tag attrs []) F_SOCIAL base_url = Inr (VDict [])"
    by (simp add: dispatch_social extract_social_def find_all_childless)
  with 12 show ?thesis by (simp add: field_names)
next
  case 13
  have "extract_category (Element tag attrs []) = VStr []"
    by (simp add: extract_category_def category_fallbacks_def meta_content_def bs_find_childless)
  then have "extract_field urljoin (Element tag attrs []) F_PRACTICE_AREAS base_url = Inr (VStr [])"
    by (simp add: dispatch)
  with 13 show ?thesis by (simp add: field_names)
next
  case 14
  have "extract_category (Element tag attrs []) = VStr []"
    by (simp add: extract_category_def category_fallbacks_def meta_content_def bs_find_childless)
  then have "extract_field urljoin (Element tag attrs []) F_ACTIVITY_FIELD base_url = Inr (VStr [])"
    by (simp add: dispatch)
  with 14 show ?thesis by (simp add: field_names)
next
  case 15
  have "extract_category (Element tag attrs []) = VStr []"
    by (simp add: extract_category_def category_fallbacks_def meta_content_def bs_find_childless)
  then have "extract_field urljoin (Element tag attrs []) F_SPECIALTY base_url = Inr (VStr [])"
    by (simp add: dispatch)
  with 15 show ?thesis by (simp add: field_names)
next
  case 16
  then have "extract_field urljoin (Element tag attrs []) name base_url = Inr (VStr [])"
    by (rule extract_field_unknown)
  moreover from 16 have "name \<noteq> F_TEAM \<and> name \<noteq> F_DOCTORS \<and> name \<noteq> F_SOCIAL"
    by (auto simp: vocabulary_def)
  ultimately show ?thesis by simp
qed

text \<open>
  Claim C5, as the code has it. For every parsed document the strategy of every field other
  than the social links returns a value and raises no exception. The social-links strategy
  raises only what \<open>urljoin\<close> raises on the href of a hyperlink attributed to a platform, and
  it returns when \<open>urljoin\<close> returns on all of them. A field name outside the vocabulary
  gives the empty string. A strategy that finds nothing returns an empty value: the empty
  list for the two team fields, the empty mapping for the social links, and the empty string
  for every other field, the array-typed practice-areas field included; so does every
  strategy on a document without child nodes.
\<close>

theorem extract_field_total:
  "(name \<noteq> F_SOCIAL \<longrightarrow> (\<exists>v. extract_field urljoin soup name base_url = Inr v))
   \<and> (extract_field urljoin soup name base_url = Inl e
        \<longrightarrow> name = F_SOCIAL
          \<and> (\<exists>href\<in>set (link_hrefs soup).
                platform_of href \<noteq> None \<and> resolve urljoin base_url href = Inl e))
   \<and> ((\<forall>href\<in>set (link_hrefs soup).
          platform_of href \<noteq> None \<longrightarrow> (\<exists>url. resolve urljoin base_url href = Inr url))
        \<longrightarrow> (\<exists>v. extract_field urljoin soup name base_url = Inr v))
   \<and> (name \<notin> set vocabulary \<longrightarrow> extract_field urljoin soup name base_url = Inr (VStr []))
   \<and> (finds_nothing soup name
        \<longrightarrow> extract_field urljoin soup name base_url = Inr (empty_value name))
   \<and> extract_field urljoin (Element tag attrs []) name base_url = Inr (empty_value name)"
proof (intro conjI impI)
  assume "name \<noteq> F_SOCIAL"
  then show "\<exists>v. extract_field urljoin soup name base_url = Inr v"
    by (rule extract_field_returns)
next
  assume a: "extract_field urljoin soup name base_url = Inl e"
  from extract_field_raises [OF a] show "name = F_SOCIAL" by simp
  from extract_field_raises [OF a]
  show "\<exists>href\<in>set (link_hrefs soup).
          platform_of href \<noteq> None \<and> resolve urljoin base_url href = Inl e"
    by simp
next
  assume "\<forall>href\<in>set (link_hrefs soup).
            platform_of href \<noteq> None \<longrightarrow> (\<exists>url. resolve urljoin base_url href = Inr url)"
  then show "\<exists>v. extract_field urljoin soup name base_url = Inr v"
    by (rule extract_field_resolved)
next
  assume "name \<notin> set vocabulary"
  then show "extract_field urljoin soup name base_url = Inr (VStr [])"
    by (rule extract_field_unknown)
next
  assume "finds_nothing soup name"
  then show "extract_field urljoin soup name base_url = Inr (empty_value name)"
    by (rule finds_nothing_empty)
next
  show "extract_field urljoin (Element tag attrs []) name base_url = Inr (empty_value name)"
    by (simp add: extract_field_childless empty_value_def)
qed

theorem extract_field_total_witness:
  "asc ''fax'' \<notin> set vocabulary
   \<and> extract_field urljoin_sample doc_heading (asc ''fax'') (asc ''https://x.co'') = Inr (VStr [])
   \<and> finds_nothing doc_paragraph F_PHONE
   \<and> extract_field urljoin_sample doc_paragraph F_PHONE (asc ''https://x.co'') = Inr (VStr [])
   \<and> finds_nothing doc_paragraph F_TEAM
   \<and> extract_field urljoin_sample doc_paragraph F_TEAM (asc ''https://x.co'') = Inr (VTeam [])
   \<and> finds_nothing doc_paragraph F_SOCIAL
   \<and> extract_field urljoin_sample doc_paragraph F_SOCIAL (asc ''https://x.co'') = Inr (VDict [])
   \<and> list_all (finds_nothing doc_paragraph) vocabulary
   \<and> list_all (\<lambda>name. extract_field urljoin_sample doc_paragraph name (asc ''https://x.co'')
                         = Inr (empty_value name)) vocabulary
   \<and> extract_field urljoin_sample doc_empty F_ADDRESS (asc ''https://x.co'') = Inr (VStr [])
   \<and> F_NAME \<noteq> F_SOCIAL
   \<and> (\<exists>v. extract_field urljoin_sample doc_heading F_NAME (asc ''https://x.co'') = Inr v)
   \<and> list_all (\<lambda>href. platform_of href \<noteq> None
                  \<longrightarrow> (\<exists>url. resolve urljoin_sample (asc ''https://x.co'') href = Inr url))
        (link_hrefs doc_two_facebook)
   \<and> (\<exists>v. extract_field urljoin_sample doc_two_facebook F_SOCIAL (asc ''https://x.co'') = Inr v)
   \<and> extract_field urljoin_sample doc_bracket_link F_SOCIAL (asc ''https://x.co'') = Inl ValueError
   \<and> list_ex (\<lambda>href. platform_of href \<noteq> None
                  \<and> resolve urljoin_sample (asc ''https://x.co'') href = Inl ValueError)
        (link_hrefs doc_bracket_link)"
proof -
  note t = extract_field_total [where urljoin = urljoin_sample and base_url = "asc ''https://x.co''"]
  have u: "asc ''fax'' \<notin> set vocabulary" by code_simp
  from t [of "asc ''fax''" doc_heading] u
  have 1: "extract_field urljoin_sample doc_heading (asc ''fax'') (asc ''https://x.co'') = Inr (VStr [])"
    by blast
  have p: "no_valid_phone doc_paragraph" by code_simp
  then have fp: "finds_nothing doc_paragraph F_PHONE" by (simp add: finds_nothing_dispatch)
  from t [of F_PHONE doc_paragraph] fp
  have 2: "extract_field urljoin_sample doc_paragraph F_PHONE (asc ''https://x.co'') = Inr (VStr [])"
    by (simp add: empty_value_dispatch)
  have m: "no_named_member doc_paragraph" by code_simp
  then have fm: "finds_nothing doc_paragraph F_TEAM" by (simp add: finds_nothing_dispatch)
  from t [of F_TEAM doc_paragraph] fm
  have 3: "extract_field urljoin_sample doc_paragraph F_TEAM (asc ''https://x.co'') = Inr (VTeam [])"
    by (simp add: empty_value_dispatch)
  have l: "no_social_link doc_paragraph" by code_simp
  then have fl: "finds_nothing doc_paragraph F_SOCIAL" by (simp add: finds_nothing_dispatch)
  from t [of F_SOCIAL doc_paragraph] fl
  have 4: "extract_field urljoin_sample doc_paragraph F_SOCIAL (asc ''https://x.co'') = Inr (VDict [])"
    by (simp add: empty_value_dispatch)
  have "no_name doc_paragraph" "no_valid_email doc_paragraph" "no_address doc_paragraph"
       "no_hours doc_paragraph" "no_category doc_paragraph"
    by code_simp+
  with p m l have fa: "list_all (finds_nothing doc_paragraph) vocabulary"
    by (simp add: vocabulary_def finds_nothing_dispatch)
  have ea: "list_all (\<lambda>name. extract_field urljoin_sample doc_paragraph name (asc ''https://x.co'')
                         = Inr (empty_value name)) vocabulary"
    unfolding list_all_iff
  proof
    fix name
    assume "name \<in> set vocabulary"
    with fa have "finds_nothing doc_paragraph name" unfolding list_all_iff by blast
    with t [of name doc_paragraph]
    show "extract_field urljoin_sample doc_paragraph name (asc ''https://x.co'')
            = Inr (empty_value name)"
      by blast
  qed
  from t [of F_ADDRESS _ _ "asc ''[document]''" "[]"]
  have 5: "extract_field urljoin_sample doc_empty F_ADDRESS (asc ''https://x.co'') = Inr (VStr [])"
    by (simp add: doc_empty_def empty_value_dispatch)
  have n: "F_NAME \<noteq> F_SOCIAL" by (simp add: field_names)
  from t [of F_NAME doc_heading] n
  have 6: "\<exists>v. extract_field urljoin_sample doc_heading F_NAME (asc ''https://x.co'') = Inr v"
    by blast
  have r: "list_all (\<lambda>href. platform_of href \<noteq> None
                  \<longrightarrow> (\<exists>url. resolve urljoin_sample (asc ''https://x.co'') href = Inr url))
        (link_hrefs doc_two_facebook)"
  proof -
    have h: "link_hrefs doc_two_facebook
       = [asc ''https://facebook.com/first'', asc ''/x.com/me'', asc ''https://facebook.com/second'']"
      by code_simp
    have "resolve urljoin_sample (asc ''https://x.co'') (asc ''https://facebook.com/first'')
            = Inr (asc ''https://facebook.com/first'')"
         "resolve urljoin_sample (asc ''https://x.co'') (asc ''/x.com/me'')
            = Inr (asc ''https://x.co/x.com/me'')"
         "resolve urljoin_sample (asc ''https://x.co'') (asc ''https://facebook.com/second'')
            = Inr (asc ''https://facebook.com/second'')"
      by code_simp+
    then show ?thesis unfolding h by simp
  qed
  from t [of F_SOCIAL doc_two_facebook] r
  have 7: "\<exists>v. extract_field urljoin_sample doc_two_facebook F_SOCIAL (asc ''https://x.co'') = Inr v"
    unfolding list_all_iff by blast
  have "extract_social urljoin_sample doc_bracket_link (asc ''https://x.co'') = Inl ValueError"
    by code_simp
  then have 8: "extract_field urljoin_sample doc_bracket_link F_SOCIAL (asc ''https://x.co'')
                  = Inl ValueError"
    by (simp add: dispatch_social)
  from t [of F_SOCIAL doc_bracket_link ValueError] 8
  have 9: "list_ex (\<lambda>href. platform_of href \<noteq> None
                  \<and> resolve urljoin_sample (asc ''https://x.co'') href = Inl ValueError)
        (link_hrefs doc_bracket_link)"
    unfolding list_ex_iff by blast
  show ?thesis using u 1 fp 2 fm 3 fl 4 fa ea 5 n 6 r 7 8 9 by blast
qed

text \<open>
  The claim as stated fails twice. The extractor raises: on a page whose only hyperlink has
  the href \<open>//[facebook.com\<close>, the social-links strategy attributes the link to Facebook and
  passes the href to \<open>urljoin\<close>, which raises \<open>ValueError\<close>. And the empty values are of other
  types: on a page with nothing to find the social-links strategy returns an empty mapping,
  neither an empty string nor an empty list, and the practice-areas field, declared an
  array, gets the empty string.
\<close>

theorem empty_values_of_other_types:
  "extract_field urljoin_sample doc_bracket_link F_SOCIAL (asc ''https://x.co'') = Inl ValueError
   \<and> link_hrefs doc_bracket_link = [asc ''//[facebook.com'']
   \<and> platform_of (asc ''//[facebook.com'') = Some (asc ''facebook'')
   \<and> extract_field urljoin_sample doc_paragraph F_SOCIAL (asc ''https://x.co'') = Inr (VDict [])
   \<and> VDict [] \<noteq> VStr [] \<and> VDict [] \<noteq> VList [] \<and> VDict [] \<noteq> VTeam []
   \<and> extract_field urljoin_sample doc_paragraph F_PRACTICE_AREAS (asc ''https://x.co'')
       = Inr (VStr [])
   \<and> map_of default_fields F_PRACTICE_AREAS = Some T_array
   \<and> \<not> has_type T_array (VStr [])"
proof -
  have "extract_social urljoin_sample doc_bracket_link (asc ''https://x.co'') = Inl ValueError"
    by code_simp
  then have 0: "extract_field urljoin_sample doc_bracket_link F_SOCIAL (asc ''https://x.co'')
                  = Inl ValueError"
    by (simp add: dispatch_social)
  have h: "link_hrefs doc_bracket_link = [asc ''//[facebook.com'']" by code_simp
  have f: "platform_of (asc ''//[facebook.com'') = Some (asc ''facebook'')" by code_simp
  have "extract_social urljoin_sample doc_paragraph (asc ''https://x.co'') = Inr []" by code_simp
  then have 1: "extract_field urljoin_sample doc_paragraph F_SOCIAL (asc ''https://x.co'')
                  = Inr (VDict [])"
    by (simp add: dispatch_social)
  have "extract_category doc_paragraph = VStr []" by code_simp
  then have 2: "extract_field urljoin_sample doc_paragraph F_PRACTICE_AREAS (asc ''https://x.co'')
                  = Inr (VStr [])"
    by (simp add: dispatch)
  have 3: "map_of default_fields F_PRACTICE_AREAS = Some T_array" by code_simp
  show ?thesis using 0 h f 1 2 3 by simp
qed

end
